theory Spec2Isabelle
  imports Main "HOL-Library.AList" "HOL-Library.Word"
begin

section \<open>Python values and protocol messages\<close>

text \<open>
  The values that travel in nREPL messages and sit in the fields of the plugin's
  objects: \<open>None\<close>, strings, integers, lists and string-keyed dictionaries.  A
  decoded response never contains \<open>None\<close>; a request built by the plugin may
  (\<open>"session": eval.session\<close>), and then cannot be encoded.
\<close>

datatype pyval =
    PNone
  | PStr string
  | PInt int
  | PList "pyval list"
  | PDict "(string \<times> pyval) list"

text \<open>
  A message is a Python \<open>dict\<close> with string keys.  Python dictionaries keep
  insertion order, so a message is an association list: \<open>map_of\<close> reads it,
  \<open>AList.update\<close> is \<open>msg[k] = v\<close> (an existing key keeps its place, a new key goes
  last).
\<close>

type_synonym msg = "(string \<times> pyval) list"

datatype exn = KeyError | TypeError | AttributeError | EncodingError

text \<open>Python truthiness, as used by \<open>if x\<close>, \<open>x and y\<close>, \<open>x or y\<close>.\<close>

fun truthy :: "pyval \<Rightarrow> bool" where
  "truthy PNone = False"
| "truthy (PStr s) = (s \<noteq> [])"
| "truthy (PInt n) = (n \<noteq> 0)"
| "truthy (PList xs) = (xs \<noteq> [])"
| "truthy (PDict kvs) = (kvs \<noteq> [])"

text \<open>\<open>k in msg\<close>, \<open>msg.get(k)\<close> and \<open>msg[k]\<close>.\<close>

definition has :: "msg \<Rightarrow> string \<Rightarrow> bool" where
  "has m k = (map_of m k \<noteq> None)"

definition get :: "msg \<Rightarrow> string \<Rightarrow> pyval" where
  "get m k = (case map_of m k of None \<Rightarrow> PNone | Some v \<Rightarrow> v)"

definition item :: "msg \<Rightarrow> string \<Rightarrow> exn + pyval" where
  "item m k = (case map_of m k of None \<Rightarrow> Inl KeyError | Some v \<Rightarrow> Inr v)"

text \<open>
  Modelled from the spec: \<open>cs_bencode.encode\<close> is not among the sources; the spec's
  codec serialises byte-strings, integers, lists and mappings and fails on any other
  value.  \<open>encodable\<close> says that no \<open>None\<close> occurs in a value.
\<close>

fun encodable :: "pyval \<Rightarrow> bool" where
  "encodable PNone = False"
| "encodable (PStr s) = True"
| "encodable (PInt n) = True"
| "encodable (PList xs) = list_all encodable xs"
| "encodable (PDict kvs) = list_all (\<lambda>kv. encodable (snd kv)) kvs"

section \<open>Evaluation records and the connection\<close>

text \<open>
  \<open>class Eval\<close> and its subclass \<open>StatusEval\<close>.  \<open>e_view\<close> is the identifier of the
  editor view the record belongs to (\<open>None\<close> for a \<open>StatusEval\<close>); regions, phantoms
  and colours are the editor's and are not modelled.
\<close>

record eval =
  e_id :: int
  e_view :: "int option"
  e_is_status :: bool
  e_status :: string
  e_value :: pyval
  e_code :: string
  e_session :: pyval
  e_msg :: "msg option"
  e_trace :: pyval

datatype profile = CLOJURE | SHADOW_CLJS

text \<open>
  The status line of the connection.  The source's strings start with a moon glyph;
  the four texts are kept apart as constructors, the last carrying host and port as
  \<open>_status_connected\<close> prints them.
\<close>

datatype status_text =
    Cloning_session
  | Uploading_middlewares
  | Adding_middlewares
  | Connected "string option" pyval

text \<open>
  What the plugin does to the outside and to its registry, in program order: a request
  written to the socket, one record deleted from \<open>conn.evals\<close>, the registry cleared.
\<close>

datatype effect = Sent msg | Removed int | Cleared

text \<open>
  The global \<open>conn\<close> (class \<open>Connection\<close>) together with the other globals the
  handlers read: \<open>Eval.next_id\<close>, the settings \<open>eval_shared\<close> and
  \<open>eval_in_session\<close>, the current label of the progress thread, and the source text
  of the middleware file.  \<open>evals\<close> is keyed by record id in insertion order;
  \<open>evals_by_view[v]\<close> always holds exactly the records of \<open>evals\<close> whose view is
  \<open>v\<close> (\<open>add_eval\<close>, \<open>erase_eval\<close> and \<open>reset\<close> change both together), so it is read
  off \<open>evals\<close>.  \<open>socket\<close> says whether \<open>conn.socket\<close> is set.
\<close>

record state =
  host :: "string option"
  port :: pyval
  status :: "status_text option"
  evals :: "(int \<times> eval) list"
  socket :: bool
  session :: pyval
  eval_in_session :: bool
  profile :: "profile option"
  cljs_build :: pyval
  next_id :: int
  eval_shared :: pyval
  phase :: pyval
  middleware_clj :: string
  effects :: "effect list"

text \<open>The requests written to the socket, oldest first.\<close>

fun requests :: "effect list \<Rightarrow> msg list" where
  "requests [] = []"
| "requests (Sent m # es) = m # requests es"
| "requests (Removed i # es) = requests es"
| "requests (Cleared # es) = requests es"

definition sent :: "state \<Rightarrow> msg list" where
  "sent s = requests (effects s)"

text \<open>
  \<open>Connection.send\<close>: \<open>self.socket.sendall(bencode.encode(msg).encode())\<close>.  With no
  socket the attribute access fails; a message holding \<open>None\<close> is not encodable.
  Errors of the operating system on a live socket are not modelled.
\<close>

definition send :: "msg \<Rightarrow> state \<Rightarrow> (exn + unit) \<times> state" where
  "send m s =
     (if \<not> socket s then (Inl AttributeError, s)
      else if \<not> encodable (PDict m) then (Inl EncodingError, s)
      else (Inr (), s\<lparr>effects := effects s @ [Sent m]\<rparr>))"

text \<open>
  \<open>Connection.erase_eval\<close>: the record leaves the registry first; the interrupt, if
  any, is sent afterwards.  \<open>del self.evals[eval.id]\<close> raises \<open>KeyError\<close> for a record
  that is not registered.
\<close>

definition erase_eval :: "eval \<Rightarrow> state \<Rightarrow> (exn + unit) \<times> state" where
  "erase_eval e s =
     (if map_of (evals s) (e_id e) = None then (Inl KeyError, s)
      else
        let s1 = s\<lparr>evals := AList.delete (e_id e) (evals s),
                   effects := effects s @ [Removed (e_id e)]\<rparr>
        in if e_status e = ''pending'' \<and> truthy (e_session e)
           then send [(''op'', PStr ''interrupt''),
                      (''interrupt-id'', PInt (e_id e)),
                      (''session'', e_session e)] s1
           else (Inr (), s1))"

section \<open>Python operators on message values\<close>

definition bindE :: "exn + 'a \<Rightarrow> ('a \<Rightarrow> exn + 'b) \<Rightarrow> exn + 'b" where
  "bindE r f = (case r of Inl x \<Rightarrow> Inl x | Inr v \<Rightarrow> f v)"

text \<open>\<open>a + b\<close>: defined on two strings, two integers or two lists.\<close>

fun py_add :: "pyval \<Rightarrow> pyval \<Rightarrow> exn + pyval" where
  "py_add (PStr a) (PStr b) = Inr (PStr (a @ b))"
| "py_add (PInt a) (PInt b) = Inr (PInt (a + b))"
| "py_add (PList a) (PList b) = Inr (PList (a @ b))"
| "py_add a b = Inl TypeError"

text \<open>\<open>a - b\<close>: defined on two integers.\<close>

fun py_sub :: "pyval \<Rightarrow> pyval \<Rightarrow> exn + pyval" where
  "py_sub (PInt a) (PInt b) = Inr (PInt (a - b))"
| "py_sub a b = Inl TypeError"

fun is_substr :: "string \<Rightarrow> string \<Rightarrow> bool" where
  "is_substr x [] = (x = [])"
| "is_substr x (c # cs) = (take (length x) (c # cs) = x \<or> is_substr x cs)"

text \<open>
  \<open>x in c\<close> for a string \<open>x\<close>: membership in a list, substring of a string, key of
  a dictionary; an integer or \<open>None\<close> is not iterable.
\<close>

fun contains :: "string \<Rightarrow> pyval \<Rightarrow> exn + bool" where
  "contains x (PList ys) = Inr (PStr x \<in> set ys)"
| "contains x (PStr s) = Inr (is_substr x s)"
| "contains x (PDict kvs) = Inr (map_of kvs x \<noteq> None)"
| "contains x v = Inl TypeError"

text \<open>
  \<open>str(v)\<close>, as \<open>format\<close> and f-strings apply it, with \<open>repr\<close> (\<open>r = True\<close>) for the
  elements of a container and the keys of a dictionary.
\<close>

fun digits :: "nat \<Rightarrow> string" where
  "digits n =
     (if n < 10 then [''0123456789'' ! n]
      else digits (n div 10) @ [''0123456789'' ! (n mod 10)])"

declare digits.simps [simp del]

definition str_int :: "int \<Rightarrow> string" where
  "str_int i = (if i < 0 then CHR ''-'' # digits (nat (- i)) else digits (nat i))"

fun join :: "string \<Rightarrow> string list \<Rightarrow> string" where
  "join sep [] = []"
| "join sep [x] = x"
| "join sep (x # y # ys) = x @ sep @ join sep (y # ys)"

text \<open>
  \<open>repr\<close> of a string.  The quote is the single quote, unless the string holds a
  single quote and no double quote.  The backslash and the quote in use are written
  with a backslash in front; tab, newline and carriage return as a backslash and the
  letter \<open>t\<close>, \<open>n\<close> or \<open>r\<close>; any other control character and DEL as a backslash, the
  letter \<open>x\<close> and two lower-case hexadecimal digits.  A character past ASCII is copied,
  which is what Python does for printable text.
\<close>

definition hex2 :: "nat \<Rightarrow> string" where
  "hex2 n = [''0123456789abcdef'' ! (n div 16), ''0123456789abcdef'' ! (n mod 16)]"

definition repr_char :: "char \<Rightarrow> char \<Rightarrow> string" where
  "repr_char q c =
     (if c = q \<or> c = CHR 0x5C then [CHR 0x5C, c]
      else if c = CHR 0x09 then [CHR 0x5C, CHR ''t'']
      else if c = CHR 0x0A then [CHR 0x5C, CHR ''n'']
      else if c = CHR 0x0D then [CHR 0x5C, CHR ''r'']
      else if (of_char c :: nat) < 32 \<or> (of_char c :: nat) = 127
           then [CHR 0x5C, CHR ''x''] @ hex2 (of_char c)
      else [c])"

definition repr_str :: "string \<Rightarrow> string" where
  "repr_str s =
     (let q = (if CHR 0x27 \<in> set s \<and> CHR 0x22 \<notin> set s then CHR 0x22 else CHR 0x27)
      in [q] @ concat (map (repr_char q) s) @ [q])"

fun py_fmt :: "bool \<Rightarrow> pyval \<Rightarrow> string" where
  "py_fmt r PNone = ''None''"
| "py_fmt r (PStr s) = (if r then repr_str s else s)"
| "py_fmt r (PInt i) = str_int i"
| "py_fmt r (PList xs) = ''['' @ join '', '' (map (py_fmt True) xs) @ '']''"
| "py_fmt r (PDict kvs) =
     ''{'' @ join '', ''
        (map (\<lambda>kv. repr_str (fst kv) @ '': '' @ py_fmt True (snd kv)) kvs) @ ''}''"

definition py_str :: "pyval \<Rightarrow> string" where
  "py_str v = py_fmt False v"

section \<open>The registry\<close>

text \<open>
  \<open>x in conn.evals\<close> followed by \<open>conn.evals[x]\<close>.  The keys are integers; a list
  or a dictionary is unhashable and the membership test itself raises.
\<close>

fun registered :: "pyval \<Rightarrow> state \<Rightarrow> exn + eval option" where
  "registered (PInt i) s = Inr (map_of (evals s) i)"
| "registered (PList xs) s = Inl TypeError"
| "registered (PDict kvs) s = Inl TypeError"
| "registered v s = Inr None"

text \<open>
  The records are objects held by the registry: changing a field of
  \<open>conn.evals[id]\<close> changes the registry's entry in place.
\<close>

definition set_eval :: "eval \<Rightarrow> state \<Rightarrow> state" where
  "set_eval e s = s\<lparr>evals := AList.update (e_id e) e (evals s)\<rparr>"

text \<open>
  \<open>Eval.update\<close> and \<open>StatusEval.update\<close>: status and value are stored first.  What
  follows in the source draws the value, in the record's region if the editor still has
  one, or in the status line if there is an active view.  The drawing is the editor's
  and is left out; in the source it goes through \<open>escape\<close> and string concatenation, which
  fail on a value that is not a string, so the model describes the calls whose value is
  a string or \<open>None\<close> and the calls for which the editor has nothing to draw in.
\<close>

definition update_eval :: "string \<Rightarrow> pyval \<Rightarrow> eval \<Rightarrow> eval" where
  "update_eval st v e = e\<lparr>e_status := st, e_value := v\<rparr>"

definition add_eval :: "eval \<Rightarrow> state \<Rightarrow> state" where
  "add_eval e s = s\<lparr>evals := AList.update (e_id e) e (evals s)\<rparr>"

definition evals_by_view :: "state \<Rightarrow> int \<Rightarrow> (int \<times> eval) list" where
  "evals_by_view s v = filter (\<lambda>ie. e_view (snd ie) = Some v) (evals s)"

text \<open>
  \<open>Connection.erase_evals\<close>: the loop runs over a snapshot of the registry (or of one
  view's records) and stops at the first exception.
\<close>

fun erase_each :: "(eval \<Rightarrow> bool) \<Rightarrow> eval list \<Rightarrow> state \<Rightarrow> (exn + unit) \<times> state" where
  "erase_each p [] s = (Inr (), s)"
| "erase_each p (e # es) s =
     (if p e then
        (case erase_eval e s of
           (Inl x, s') \<Rightarrow> (Inl x, s')
         | (Inr u, s') \<Rightarrow> erase_each p es s')
      else erase_each p es s)"

definition erase_evals :: "(eval \<Rightarrow> bool) \<Rightarrow> int option \<Rightarrow> state \<Rightarrow> (exn + unit) \<times> state" where
  "erase_evals p view s =
     erase_each p (map snd (case view of None \<Rightarrow> evals s | Some v \<Rightarrow> evals_by_view s v)) s"

definition set_status :: "status_text option \<Rightarrow> state \<Rightarrow> state" where
  "set_status st s = s\<lparr>status := st\<rparr>"

text \<open>\<open>Connection.reset\<close>, \<open>Connection.disconnect\<close> and \<open>Connection.ready\<close>.\<close>

definition reset :: "state \<Rightarrow> state" where
  "reset s =
     (set_status None (s\<lparr>socket := False, session := PNone\<rparr>))
       \<lparr>evals := [], effects := effects s @ [Cleared]\<rparr>"

definition disconnect :: "state \<Rightarrow> state" where
  "disconnect s = (if socket s then reset s else s)"

definition ready :: "state \<Rightarrow> bool" where
  "ready s = (socket s \<and> truthy (session s))"

section \<open>Message handlers\<close>

text \<open>
  Every handler returns \<open>True\<close> when it claims the message and \<open>None\<close> otherwise;
  an exception leaves the handler with the state as it is at that point.
\<close>

definition handle_new_session :: "msg \<Rightarrow> state \<Rightarrow> (exn + bool) \<times> state" where
  "handle_new_session m s =
     (if has m ''new-session'' \<and> has m ''id'' then
        (case registered (get m ''id'') s of
           Inl x \<Rightarrow> (Inl x, s)
         | Inr None \<Rightarrow> (Inr False, s)
         | Inr (Some e) \<Rightarrow> (Inr True, set_eval (e\<lparr>e_session := get m ''new-session''\<rparr>) s))
      else (Inr False, s))"

definition handle_value :: "msg \<Rightarrow> state \<Rightarrow> (exn + bool) \<times> state" where
  "handle_value m s =
     (if has m ''value'' \<and> has m ''id'' then
        (case registered (get m ''id'') s of
           Inl x \<Rightarrow> (Inl x, s)
         | Inr None \<Rightarrow> (Inr False, s)
         | Inr (Some e) \<Rightarrow> (Inr True, set_eval (update_eval ''success'' (get m ''value'') e) s))
      else (Inr False, s))"

text \<open>The keys of the plugin's middleware: \<open>ns + ".middleware/" + key\<close>.\<close>

definition mw :: "string \<Rightarrow> string" where
  "mw key = ''clojure-sublimed.middleware/'' @ key"

text \<open>
  The summary text of the structured branch of \<open>handle_exception\<close>.  With a line and
  a column and a view, the source computes \<open>line - 1\<close> and selects the place in the
  editor; without a view but with a source name, the place is appended to the text.
\<close>

definition exception_text :: "msg \<Rightarrow> eval \<Rightarrow> exn + pyval" where
  "exception_text m e =
     bindE (py_add (get m (mw ''root-ex-class'')) (PStr '': '')) (\<lambda>t0.
     bindE (py_add t0 (get m (mw ''root-ex-msg''))) (\<lambda>t1.
     bindE (if truthy (get m (mw ''root-ex-data''))
            then bindE (py_add (PStr '' '') (get m (mw ''root-ex-data''))) (py_add t1)
            else Inr t1) (\<lambda>t2.
     if has m (mw ''line'') \<and> has m (mw ''column'') \<and> e_view e \<noteq> None then
       bindE (py_sub (get m (mw ''line'')) (PInt 1)) (\<lambda>line. Inr t2)
     else if has m (mw ''line'') \<and> has m (mw ''column'') \<and> truthy (get m (mw ''source'')) then
       py_add t2 (PStr ('' ('' @ py_str (get m (mw ''source'')) @ '':'' @
                        py_str (get m (mw ''line'')) @ '':'' @
                        py_str (get m (mw ''column'')) @ '')''))
     else Inr t2)))"

definition handle_exception :: "msg \<Rightarrow> state \<Rightarrow> (exn + bool) \<times> state" where
  "handle_exception m s =
     (if has m ''id'' then
        (case registered (get m ''id'') s of
           Inl x \<Rightarrow> (Inl x, s)
         | Inr None \<Rightarrow> (Inr False, s)
         | Inr (Some e) \<Rightarrow>
             if truthy (get m (mw ''root-ex-class'')) \<and> truthy (get m (mw ''root-ex-msg'')) then
               (case exception_text m e of
                  Inl x \<Rightarrow> (Inl x, s)
                | Inr t \<Rightarrow>
                    (Inr True,
                     set_eval (update_eval ''exception'' t (e\<lparr>e_trace := get m (mw ''trace'')\<rparr>)) s))
             else if has m ''root-ex'' then
               (Inr True, set_eval (update_eval ''exception'' (get m ''root-ex'') e) s)
             else if has m ''ex'' then
               (Inr True, set_eval (update_eval ''exception'' (get m ''ex'') e) s)
             else if has m ''status'' then
               (case contains ''namespace-not-found'' (get m ''status'') of
                  Inl x \<Rightarrow> (Inl x, s)
                | Inr False \<Rightarrow> (Inr False, s)
                | Inr True \<Rightarrow>
                    (case item m ''ns'' of
                       Inl x \<Rightarrow> (Inl x, s)
                     | Inr n \<Rightarrow>
                         (Inr False,
                          set_eval (update_eval ''exception''
                                      (PStr (''Namespace not found: '' @ py_str n)) e) s)))
             else (Inr False, s))
      else (Inr False, s))"

text \<open>
  \<open>format_lookup\<close>, as far as it can fail on the value of \<open>info\<close>; the text it builds
  goes to the editor and is not kept.  \<open>html.escape\<close> and \<open>strip\<close> need a string;
  \<open>format_form\<close> returns a string as it is and iterates over anything else, so it
  fails on an integer.
\<close>

fun is_str :: "pyval \<Rightarrow> bool" where
  "is_str (PStr s) = True"
| "is_str v = False"

fun format_form :: "pyval \<Rightarrow> bool" where
  "format_form (PStr s) = True"
| "format_form (PList xs) = list_all format_form xs"
| "format_form (PDict kvs) = True"
| "format_form v = False"

fun format_forms :: "pyval \<Rightarrow> bool" where
  "format_forms (PList xs) = list_all format_form xs"
| "format_forms (PStr s) = True"
| "format_forms (PDict kvs) = True"
| "format_forms v = False"

definition format_lookup :: "pyval \<Rightarrow> exn + unit" where
  "format_lookup info =
     (if \<not> truthy info then Inr ()
      else
        (case info of
           PDict d \<Rightarrow>
             (case map_of d ''name'' of
                None \<Rightarrow> Inl KeyError
              | Some name \<Rightarrow>
                  if truthy (get d ''ns'') \<and> \<not> is_str (get d ''ns'') then Inl AttributeError
                  else if \<not> is_str name then Inl AttributeError
                  else if truthy (get d ''arglists'') \<and> \<not> is_str (get d ''arglists'')
                       then Inl AttributeError
                  else if truthy (get d ''forms'') \<and> \<not> format_forms (get d ''forms'')
                       then Inl TypeError
                  else if truthy (get d ''doc'') \<and> \<not> is_str (get d ''doc'') then Inl AttributeError
                  else Inr ())
         | v \<Rightarrow> Inl AttributeError))"

text \<open>
  \<open>handle_lookup\<close>: the record becomes a lookup result and \<open>format_lookup\<close> renders
  \<open>msg["info"]\<close> for the view of the record; a record without a view fails at
  \<open>view.settings()\<close>.  The phantom that shows the text is placed at the record's
  region, which the editor is taken to still have.
\<close>

definition handle_lookup :: "msg \<Rightarrow> state \<Rightarrow> (exn + bool) \<times> state" where
  "handle_lookup m s =
     (if has m ''info'' \<and> has m ''id'' then
        (case registered (get m ''id'') s of
           Inl x \<Rightarrow> (Inl x, s)
         | Inr None \<Rightarrow> (Inr False, s)
         | Inr (Some e) \<Rightarrow>
             let s1 = set_eval (update_eval ''lookup'' PNone e) s in
             if e_view e = None then (Inl AttributeError, s1)
             else (case format_lookup (get m ''info'') of
                     Inl x \<Rightarrow> (Inl x, s1)
                   | Inr u \<Rightarrow> (Inr True, s1)))
      else (Inr False, s))"

text \<open>\<open>get_shadow_repl_init_cmd\<close> and \<open>_status_connected\<close>.\<close>

definition get_shadow_repl_init_cmd :: "pyval \<Rightarrow> string" where
  "get_shadow_repl_init_cmd build =
     (if build = PStr ''node-repl'' then ''(shadow.cljs.devtools.api/node-repl)''
      else if build = PStr ''browser-repl'' then ''(shadow.cljs.devtools.api/browser-repl)''
      else ''(shadow.cljs.devtools.api/repl '' @ py_str build @ '')'')"

definition status_connected :: "state \<Rightarrow> status_text" where
  "status_connected s = Connected (host s) (port s)"

text \<open>
  \<open>handle_connect\<close>, the handshake.  The branch for \<open>id = 3\<close> sends the shared code
  and falls off the end of the function without \<open>return True\<close>.
\<close>

definition handle_connect :: "msg \<Rightarrow> state \<Rightarrow> (exn + bool) \<times> state" where
  "handle_connect m s =
     (if profile s = Some SHADOW_CLJS \<and> get m ''id'' = PInt 1 \<and> has m ''new-session'' then
        (case send [(''op'', PStr ''eval''),
                    (''session'', get m ''new-session''),
                    (''code'', PStr (get_shadow_repl_init_cmd (cljs_build s))),
                    (''id'', PInt 2)] (s\<lparr>session := get m ''new-session''\<rparr>) of
           (Inl x, s') \<Rightarrow> (Inl x, s')
         | (Inr u, s') \<Rightarrow> (Inr True, s'))
      else if profile s = Some SHADOW_CLJS \<and> get m ''id'' = PInt 2
              \<and> get m ''status'' = PList [PStr ''done''] then
        (Inr True, set_status (Some (status_connected s)) s)
      else if get m ''id'' = PInt 1 \<and> has m ''new-session'' then
        (case send [(''op'', PStr ''load-file''),
                    (''session'', get m ''new-session''),
                    (''file'', PStr (middleware_clj s)),
                    (''id'', PInt 2)] (s\<lparr>session := get m ''new-session''\<rparr>) of
           (Inl x, s') \<Rightarrow> (Inl x, s')
         | (Inr u, s') \<Rightarrow> (Inr True, set_status (Some Uploading_middlewares) s'))
      else if get m ''id'' = PInt 2 \<and> get m ''status'' = PList [PStr ''done''] then
        (case send [(''op'', PStr ''add-middleware''),
                    (''middleware'', PList [PStr ''clojure-sublimed.middleware/clone-and-eval'',
                                            PStr ''clojure-sublimed.middleware/time-eval'',
                                            PStr ''clojure-sublimed.middleware/wrap-errors'',
                                            PStr ''clojure-sublimed.middleware/wrap-output'']),
                    (''extra-namespaces'', PList [PStr ''clojure-sublimed.middleware'']),
                    (''session'', session s),
                    (''id'', PInt (if truthy (eval_shared s) then 3 else 4))] s of
           (Inl x, s') \<Rightarrow> (Inl x, s')
         | (Inr u, s') \<Rightarrow> (Inr True, set_status (Some Adding_middlewares) s'))
      else if get m ''id'' = PInt 3 \<and> get m ''status'' = PList [PStr ''done''] then
        (case send [(''op'', PStr ''eval''),
                    (''code'', eval_shared s),
                    (''session'', session s),
                    (''id'', PInt 4)] s of
           (Inl x, s') \<Rightarrow> (Inl x, s')
         | (Inr u, s') \<Rightarrow> (Inr False, s'))
      else if get m ''id'' = PInt 4 \<and> get m ''status'' = PList [PStr ''done''] then
        (Inr True, set_status (Some (status_connected s)) s)
      else (Inr False, s))"

definition handle_done :: "msg \<Rightarrow> state \<Rightarrow> (exn + bool) \<times> state" where
  "handle_done m s =
     (if has m ''id'' then
        (case registered (get m ''id'') s of
           Inl x \<Rightarrow> (Inl x, s)
         | Inr None \<Rightarrow> (Inr False, s)
         | Inr (Some e) \<Rightarrow>
             if has m ''status'' then
               (case contains ''done'' (get m ''status'') of
                  Inl x \<Rightarrow> (Inl x, s)
                | Inr False \<Rightarrow> (Inr False, s)
                | Inr True \<Rightarrow>
                    if e_status e \<noteq> ''success'' \<and> e_status e \<noteq> ''exception'' then
                      (case erase_eval e s of
                         (Inl x, s') \<Rightarrow> (Inl x, s')
                       | (Inr u, s') \<Rightarrow> (Inr False, s'))
                    else (Inr False, s))
             else (Inr False, s))
      else (Inr False, s))"

subsection \<open>Truncated keys\<close>

definition tk :: string where
  "tk = ''nrepl.middleware.print/truncated-keys''"

definition dots :: "pyval list" where
  "dots = [PStr ''.'', PStr ''.'', PStr ''.'']"

text \<open>\<open>for key in v\<close>: the elements of a list, the characters of a string, the keys of
  a dictionary.\<close>

fun iter :: "pyval \<Rightarrow> exn + pyval list" where
  "iter (PList xs) = Inr xs"
| "iter (PStr s) = Inr (map (\<lambda>c. PStr [c]) s)"
| "iter (PDict kvs) = Inr (map (\<lambda>kv. PStr (fst kv)) kvs)"
| "iter v = Inl TypeError"

text \<open>\<open>msg[key]\<close> for an arbitrary key: a list or dictionary is unhashable, any other
  key that is not a string is missing.\<close>

fun item_py :: "msg \<Rightarrow> pyval \<Rightarrow> exn + (string \<times> pyval)" where
  "item_py m (PStr k) = bindE (item m k) (\<lambda>v. Inr (k, v))"
| "item_py m (PList xs) = Inl TypeError"
| "item_py m (PDict kvs) = Inl TypeError"
| "item_py m v = Inl KeyError"

text \<open>
  The loop \<open>msg[key] += '...'\<close>.  A string gets the three dots appended; a list is
  extended in place by the three characters.  When the key is the truncated-keys entry
  itself and that entry is a list, the list extended is the one being iterated, so the
  three new elements are visited as well.
\<close>

function truncate_keys :: "pyval list \<Rightarrow> msg \<Rightarrow> exn + msg" where
  "truncate_keys [] m = Inr m"
| "truncate_keys (key # keys) m =
     (case item_py m key of
        Inl x \<Rightarrow> Inl x
      | Inr (k, PStr v) \<Rightarrow> truncate_keys keys (AList.update k (PStr (v @ ''...'')) m)
      | Inr (k, PList xs) \<Rightarrow>
          truncate_keys (if k = tk then keys @ dots else keys) (AList.update k (PList (xs @ dots)) m)
      | Inr (k, v) \<Rightarrow> Inl TypeError)"
  by pat_completeness auto
termination
proof (relation "measures [\<lambda>p. count_list (fst p) (PStr tk), \<lambda>p. length (fst p)]")
  show "wf (measures [\<lambda>p. count_list (fst p) (PStr tk), \<lambda>p. length (fst p)])"
    by simp
next
  fix key :: pyval and keys :: "pyval list" and m :: msg and x2 k v s
  show "((keys, AList.update k (PStr (v @ ''...'')) m), key # keys, m)
          \<in> measures [\<lambda>p. count_list (fst p) (PStr tk), \<lambda>p. length (fst p)]"
    by simp
next
  fix key :: pyval and keys :: "pyval list" and m :: msg and x2 k v xs
  assume "item_py m key = Inr x2" and "(k, v) = x2"
  then have "key = PStr k"
    by (cases key) (auto simp: bindE_def item_def split: option.splits)
  then show "((if k = tk then keys @ dots else keys, AList.update k (PList (xs @ dots)) m), key # keys, m)
          \<in> measures [\<lambda>p. count_list (fst p) (PStr tk), \<lambda>p. length (fst p)]"
    by (simp add: dots_def tk_def)
qed

definition truncated :: "msg \<Rightarrow> exn + msg" where
  "truncated m =
     (case map_of m tk of
        None \<Rightarrow> Inr m
      | Some v \<Rightarrow> bindE (iter v) (\<lambda>keys. truncate_keys keys m))"

subsection \<open>Routing\<close>

text \<open>\<open>h1(msg) or h2(msg)\<close>: the second handler runs when the first returns a false
  value.\<close>

definition or_else ::
  "(state \<Rightarrow> (exn + bool) \<times> state) \<Rightarrow> (state \<Rightarrow> (exn + bool) \<times> state) \<Rightarrow> state \<Rightarrow> (exn + bool) \<times> state"
where
  "or_else h1 h2 s =
     (case h1 s of
        (Inl x, s') \<Rightarrow> (Inl x, s')
      | (Inr True, s') \<Rightarrow> (Inr True, s')
      | (Inr False, s') \<Rightarrow> h2 s')"

definition route :: "msg \<Rightarrow> state \<Rightarrow> (exn + bool) \<times> state" where
  "route m =
     or_else (handle_connect m)
    (or_else (handle_new_session m)
    (or_else (handle_value m)
    (or_else (handle_exception m)
    (or_else (handle_lookup m)
             (handle_done m)))))"

definition handle_msg :: "msg \<Rightarrow> state \<Rightarrow> (exn + unit) \<times> state" where
  "handle_msg m s =
     (case truncated m of
        Inl x \<Rightarrow> (Inl x, s)
      | Inr m' \<Rightarrow> (case route m' s of (Inl x, s') \<Rightarrow> (Inl x, s') | (Inr b, s') \<Rightarrow> (Inr (), s')))"

section \<open>The reader thread\<close>

text \<open>
  \<open>read_loop\<close>: the clone request, then \<open>handle_msg\<close> for every decoded message, then
  \<open>conn.disconnect()\<close> at the end of the stream.  Only \<open>OSError\<close> is caught; any other
  exception ends the thread where it is raised, without the disconnect.
\<close>

definition read_loop_start :: "state \<Rightarrow> (exn + unit) \<times> state" where
  "read_loop_start s =
     (case send [(''op'', PStr ''clone''), (''id'', PInt 1)] s of
        (Inl x, s') \<Rightarrow> (Inl x, s')
      | (Inr u, s') \<Rightarrow> (Inr (), set_status (Some Cloning_session) s'))"

fun handle_all :: "msg list \<Rightarrow> state \<Rightarrow> (exn + unit) \<times> state" where
  "handle_all [] s = (Inr (), s)"
| "handle_all (m # ms) s =
     (case handle_msg m s of
        (Inl x, s') \<Rightarrow> (Inl x, s')
      | (Inr u, s') \<Rightarrow> handle_all ms s')"

definition read_loop :: "msg list \<Rightarrow> state \<Rightarrow> (exn + unit) \<times> state" where
  "read_loop msgs s =
     (case read_loop_start s of
        (Inl x, s1) \<Rightarrow> (Inl x, s1)
      | (Inr u, s1) \<Rightarrow>
          (case handle_all msgs s1 of
             (Inl x, s2) \<Rightarrow> (Inl x, s2)
           | (Inr u, s2) \<Rightarrow> (Inr (), disconnect s2)))"

text \<open>
  \<open>connect\<close>; \<open>ok\<close> says whether the socket could be opened.  The reader thread it
  starts is \<open>read_loop\<close>.
\<close>

definition connect :: "string option \<Rightarrow> pyval \<Rightarrow> profile \<Rightarrow> pyval \<Rightarrow> bool \<Rightarrow> state \<Rightarrow> state" where
  "connect h p pr build ok s =
     (let s1 = s\<lparr>host := h, port := p, profile := Some pr, cljs_build := build\<rparr>
      in if ok then s1\<lparr>socket := True\<rparr> else set_status None (s1\<lparr>socket := False\<rparr>))"

text \<open>
  The state after \<open>plugin_loaded\<close>: a fresh \<open>Connection\<close>, \<open>Eval.next_id = 10\<close>, and
  the settings as read by \<open>on_settings_change\<close>.
\<close>

definition plugin_loaded :: "pyval \<Rightarrow> bool \<Rightarrow> pyval \<Rightarrow> string \<Rightarrow> state" where
  "plugin_loaded shared in_session label middleware =
     \<lparr>host = Some ''localhost'', port = PNone, status = None, evals = [], socket = False,
      session = PNone, eval_in_session = in_session, profile = None, cljs_build = PNone,
      next_id = 10, eval_shared = shared, phase = label, middleware_clj = middleware,
      effects = []\<rparr>"

section \<open>Commands\<close>

text \<open>\<open>Eval.__init__\<close> and \<open>StatusEval.__init__\<close>: the record takes \<open>Eval.next_id\<close>, and
  the counter moves on by one.\<close>

definition Eval_new :: "int \<Rightarrow> string \<Rightarrow> state \<Rightarrow> eval \<times> state" where
  "Eval_new v code s =
     (\<lparr>e_id = next_id s, e_view = Some v, e_is_status = False, e_status = ''pending'',
       e_value = PNone, e_code = code, e_session = PNone, e_msg = None, e_trace = PNone\<rparr>,
      s\<lparr>next_id := next_id s + 1\<rparr>)"

definition StatusEval_new :: "string \<Rightarrow> state \<Rightarrow> eval \<times> state" where
  "StatusEval_new code s =
     (\<lparr>e_id = next_id s, e_view = None, e_is_status = True, e_status = ''pending'',
       e_value = PNone, e_code = code, e_session = PNone, e_msg = None, e_trace = PNone\<rparr>,
      s\<lparr>next_id := next_id s + 1\<rparr>)"

definition get_middleware_opts :: "state \<Rightarrow> msg" where
  "get_middleware_opts s =
     (if profile s = Some CLOJURE then
        [(''nrepl.middleware.caught/caught'', PStr ''clojure-sublimed.middleware/print-root-trace''),
         (''nrepl.middleware.print/print'', PStr ''clojure-sublimed.middleware/pprint''),
         (''nrepl.middleware.print/quota'', PInt 4096)]
      else [])"

text \<open>\<open>d.update(other)\<close>.\<close>

definition dict_update :: "msg \<Rightarrow> msg \<Rightarrow> msg" where
  "dict_update d other = foldl (\<lambda>acc kv. AList.update (fst kv) (snd kv) acc) d other"

text \<open>
  What the editor supplies for a selected region: the view, the text of the region,
  the namespace the parser finds (or \<open>None\<close>), row and column, the file name of the
  view (or \<open>None\<close>), and which records' regions touch the region's lines.
\<close>

record form =
  f_view :: int
  f_code :: string
  f_ns :: pyval
  f_row :: int
  f_column :: int
  f_file :: pyval
  f_touching :: "eval \<Rightarrow> bool"

definition eval_msg :: "form \<Rightarrow> msg \<Rightarrow> state \<Rightarrow> (exn + unit) \<times> state" where
  "eval_msg f m s =
     (case erase_evals (f_touching f) (Some (f_view f)) s of
        (Inl x, s1) \<Rightarrow> (Inl x, s1)
      | (Inr u, s1) \<Rightarrow>
          let (e, s2) = Eval_new (f_view f) (f_code f) s1;
              m1 = filter (\<lambda>kv. truthy (snd kv)) m;
              m2 = AList.update ''id'' (PInt (e_id e)) m1;
              m3 = AList.update ''session'' (session s2) m2;
              m4 = dict_update m3 (get_middleware_opts s2);
              e1 = e\<lparr>e_msg := Some m4\<rparr>;
              s3 = add_eval e1 s2
          in case send m4 s3 of
               (Inl x, s4) \<Rightarrow> (Inl x, s4)
             | (Inr u, s4) \<Rightarrow> (Inr (), set_eval (update_eval ''pending'' (phase s4) e1) s4))"

text \<open>The function \<open>eval(view, region, code)\<close>.\<close>

definition eval :: "form \<Rightarrow> string option \<Rightarrow> state \<Rightarrow> (exn + unit) \<times> state" where
  "eval f code s =
     eval_msg f
       [(''op'', PStr (if profile s = Some SHADOW_CLJS \<or> eval_in_session s
                       then ''eval'' else ''clone-eval-close'')),
        (''code'', PStr (case code of None \<Rightarrow> f_code f | Some c \<Rightarrow> c)),
        (''ns'', if truthy (f_ns f) then f_ns f else PStr ''user''),
        (''line'', PInt (f_row f + 1)),
        (''column'', PInt (f_column f)),
        (''file'', f_file f)] s"

definition basename :: "string \<Rightarrow> string" where
  "basename path = rev (takeWhile (\<lambda>c. c \<noteq> CHR ''/'') (rev path))"

text \<open>\<open>ClojureSublimedEvalBufferCommand.run\<close>.\<close>

definition eval_buffer :: "form \<Rightarrow> state \<Rightarrow> (exn + unit) \<times> state" where
  "eval_buffer f s =
     eval_msg f
       [(''op'', PStr ''load-file''),
        (''file'', PStr (f_code f)),
        (''file-path'', f_file f),
        (''file-name'', if truthy (f_file f) then PStr (basename (py_str (f_file f)))
                        else PStr ''NO_SOURCE_FILE.cljc'')] s"

text \<open>
  \<open>ClojureSublimedEvalCodeCommand.run\<close>; \<open>parsed\<close> is the namespace of the active view,
  \<open>None\<close> when there is no view or no namespace.
\<close>

definition finished_status_eval :: "eval \<Rightarrow> bool" where
  "finished_status_eval e =
     (e_is_status e \<and> e_status e \<noteq> ''pending'' \<and> e_status e \<noteq> ''interrupt'')"

definition eval_code :: "string \<Rightarrow> pyval \<Rightarrow> pyval \<Rightarrow> state \<Rightarrow> (exn + unit) \<times> state" where
  "eval_code code nsarg parsed s =
     (case erase_evals finished_status_eval None s of
        (Inl x, s1) \<Rightarrow> (Inl x, s1)
      | (Inr u, s1) \<Rightarrow>
          let (e, s2) = StatusEval_new code s1;
              nsname = (if truthy nsarg then nsarg else parsed);
              m = dict_update
                    [(''op'', PStr ''eval''),
                     (''id'', PInt (e_id e)),
                     (''ns'', if truthy nsname then nsname else PStr ''user''),
                     (''code'', PStr code)]
                    (get_middleware_opts s2);
              e1 = e\<lparr>e_msg := Some m\<rparr>;
              s3 = add_eval e1 s2
          in case send m s3 of
               (Inl x, s4) \<Rightarrow> (Inl x, s4)
             | (Inr u, s4) \<Rightarrow> (Inr (), set_eval (update_eval ''pending'' (phase s4) e1) s4))"

text \<open>\<open>ClojureSublimedInterruptEvalCommand.run\<close>.\<close>

fun interrupt_each :: "eval list \<Rightarrow> state \<Rightarrow> (exn + unit) \<times> state" where
  "interrupt_each [] s = (Inr (), s)"
| "interrupt_each (e # es) s =
     (if e_status e = ''pending'' then
        (case send [(''op'', PStr ''interrupt''),
                    (''session'', e_session e),
                    (''interrupt-id'', PInt (e_id e))] s of
           (Inl x, s') \<Rightarrow> (Inl x, s')
         | (Inr u, s') \<Rightarrow>
             interrupt_each es (set_eval (update_eval ''interrupt'' (PStr ''Interrupting...'') e) s'))
      else interrupt_each es s)"

definition interrupt_eval :: "int \<Rightarrow> state \<Rightarrow> (exn + unit) \<times> state" where
  "interrupt_eval v s = interrupt_each (map snd (evals_by_view s v)) s"

text \<open>
  \<open>ClojureSublimedToggleSymbolCommand.run\<close> for one selection.  \<open>found\<close> is the id of
  a record at the selection that shows a phantom, if \<open>find_eval\<close> gives one; \<open>symb\<close> is
  the symbol's region, if there is one.
\<close>

definition toggle_symbol :: "int \<Rightarrow> int option \<Rightarrow> form option \<Rightarrow> state \<Rightarrow> (exn + unit) \<times> state" where
  "toggle_symbol v found symb s =
     (case (case found of None \<Rightarrow> None | Some i \<Rightarrow> map_of (evals_by_view s v) i) of
        Some e \<Rightarrow> erase_eval e s
      | None \<Rightarrow>
          (case symb of
             None \<Rightarrow> (Inr (), s)
           | Some f \<Rightarrow>
               (case erase_evals (f_touching f) (Some v) s of
                  (Inl x, s1) \<Rightarrow> (Inl x, s1)
                | (Inr u, s1) \<Rightarrow>
                    let (e, s2) = Eval_new v (f_code f) s1;
                        s3 = add_eval e s2
                    in send [(''op'', PStr ''lookup''),
                             (''sym'', PStr (f_code f)),
                             (''session'', session s3),
                             (''id'', PInt (e_id e)),
                             (''ns'', if truthy (f_ns f) then f_ns f else PStr ''user'')] s3)))"

section \<open>The plugin as a state machine\<close>

text \<open>
  What can happen to the plugin: the user's commands, with the guard \<open>is_enabled\<close> of
  each, and the steps of the reader thread.  \<open>Run_erase_evals\<close> stands for the clear
  command and the listeners that call \<open>conn.erase_evals\<close> with a predicate of the
  editor's.  A step is atomic; the interleaving of the threads inside a step is not
  modelled.
\<close>

datatype action =
    Connect "string option" pyval profile pyval bool
  | Start_reading
  | Receive msg
  | Disconnect
  | Run_eval form "string option"
  | Run_eval_buffer form
  | Run_eval_code string pyval pyval
  | Run_interrupt_eval int
  | Run_toggle_symbol int "int option" "form option"
  | Run_erase_evals "eval \<Rightarrow> bool" "int option"

fun step :: "action \<Rightarrow> state \<Rightarrow> (exn + unit) \<times> state" where
  "step (Connect h p pr build ok) s =
     (if socket s then (Inr (), s) else (Inr (), connect h p pr build ok s))"
| "step Start_reading s = read_loop_start s"
| "step (Receive m) s = handle_msg m s"
| "step Disconnect s = (Inr (), disconnect s)"
| "step (Run_eval f code) s = (if ready s then eval f code s else (Inr (), s))"
| "step (Run_eval_buffer f) s = (if ready s then eval_buffer f s else (Inr (), s))"
| "step (Run_eval_code code nsarg parsed) s =
     (if ready s then eval_code code nsarg parsed s else (Inr (), s))"
| "step (Run_interrupt_eval v) s = (if ready s then interrupt_eval v s else (Inr (), s))"
| "step (Run_toggle_symbol v found symb) s =
     (if ready s then toggle_symbol v found symb s else (Inr (), s))"
| "step (Run_erase_evals p view) s = erase_evals p view s"

text \<open>A run keeps going after an exception, as the editor does after a failed command.\<close>

fun run :: "action list \<Rightarrow> state \<Rightarrow> state" where
  "run [] s = s"
| "run (a # as) s = run as (snd (step a s))"

section \<open>The byte source of the decoder\<close>

type_synonym byte = "8 word"

text \<open>
  \<open>class SocketIO\<close>.  The socket is the list of chunks the peer will still deliver;
  \<open>recv(n)\<close> blocks until there is data and returns at most \<open>n\<close> bytes of it, and the
  empty string once the peer has closed.
\<close>

fun recv :: "nat \<Rightarrow> byte list list \<Rightarrow> byte list \<times> byte list list" where
  "recv n [] = ([], [])"
| "recv n (c # cs) =
     (if c = [] then recv n cs
      else if length c \<le> n then (c, cs)
      else (take n c, drop n c # cs))"

record socket_io =
  sock :: "byte list list"
  buffer :: "byte list option"
  pos :: int

definition SocketIO :: "byte list list \<Rightarrow> socket_io" where
  "SocketIO chunks = \<lparr>sock = chunks, buffer = None, pos = - 1\<rparr>"

text \<open>\<open>xs[b:e]\<close> with Python's reading of negative and out-of-range bounds.\<close>

definition slice_index :: "nat \<Rightarrow> int \<Rightarrow> nat" where
  "slice_index n i = (if i < 0 then nat (max 0 (int n + i)) else min n (nat i))"

definition py_slice :: "'a list \<Rightarrow> int \<Rightarrow> int \<Rightarrow> 'a list" where
  "py_slice xs b e =
     (let b' = slice_index (length xs) b; e' = slice_index (length xs) e
      in take (e' - b') (drop b' xs))"

definition read :: "int \<Rightarrow> socket_io \<Rightarrow> byte list \<times> socket_io" where
  "read n io =
     (let io1 = (case buffer io of
                   None \<Rightarrow> (let (b, cs) = recv 4096 (sock io)
                              in io\<lparr>sock := cs, buffer := Some b, pos := 0\<rparr>)
                 | Some buf \<Rightarrow>
                     if buf = [] \<or> pos io \<ge> int (length buf)
                     then (let (b, cs) = recv 4096 (sock io)
                           in io\<lparr>sock := cs, buffer := Some b, pos := 0\<rparr>)
                     else io);
          buf = (case buffer io1 of None \<Rightarrow> [] | Some b \<Rightarrow> b);
          begin = pos io1;
          fin = min (begin + n) (int (length buf))
      in (py_slice buf begin fin, io1\<lparr>pos := fin\<rparr>))"

fun reads :: "int list \<Rightarrow> socket_io \<Rightarrow> byte list list \<times> socket_io" where
  "reads [] io = ([], io)"
| "reads (n # ns) io =
     (let (r, io1) = read n io; (rs, io2) = reads ns io1 in (r # rs, io2))"

section \<open>Vocabulary of the properties\<close>

text \<open>
  \<open>before a b es\<close>: \<open>a\<close> occurs in \<open>es\<close> ahead of every \<open>b\<close>, and a \<open>b\<close> follows it.
\<close>

fun before :: "'a \<Rightarrow> 'a \<Rightarrow> 'a list \<Rightarrow> bool" where
  "before a b [] = False"
| "before a b (x # xs) = (if x = b then False else if x = a then b \<in> set xs else before a b xs)"

text \<open>
  A record, a connected state, a form in the editor and an exception message to
  evaluate the operations on.
\<close>

definition ex_eval :: "int \<Rightarrow> string \<Rightarrow> pyval \<Rightarrow> eval" where
  "ex_eval i st tok =
     \<lparr>e_id = i, e_view = Some 1, e_is_status = False, e_status = st, e_value = PNone,
      e_code = ''(+ 1 2)'', e_session = tok, e_msg = None, e_trace = PNone\<rparr>"

definition ex_state :: "(int \<times> eval) list \<Rightarrow> state" where
  "ex_state es =
     (plugin_loaded PNone False (PStr ''...'') ''(ns clojure-sublimed.middleware)'')
       \<lparr>port := PInt 5555, evals := es, socket := True, session := PStr ''s1'',
        profile := Some CLOJURE, next_id := 11,
        status := Some (Connected (Some ''localhost'') (PInt 5555))\<rparr>"

definition ex_form :: form where
  "ex_form = \<lparr>f_view = 1, f_code = ''(+ 1 2)'', f_ns = PNone, f_row = 0, f_column = 0,
              f_file = PNone, f_touching = (\<lambda>e. False)\<rparr>"

definition ex_exception :: msg where
  "ex_exception =
     [(''id'', PInt 10),
      (''clojure-sublimed.middleware/root-ex-class'', PStr ''ArithmeticException''),
      (''clojure-sublimed.middleware/root-ex-msg'', PStr ''Divide by zero''),
      (''clojure-sublimed.middleware/trace'', PStr ''at user.eval''),
      (''ex'', PStr ''class java.lang.ArithmeticException''),
      (''root-ex'', PStr ''class java.lang.ArithmeticException''),
      (''status'', PList [PStr ''eval-error''])]"

text \<open>
  Values Python can use as dictionary keys.
\<close>

fun hashable :: "pyval \<Rightarrow> bool" where
  "hashable (PList xs) = False"
| "hashable (PDict kvs) = False"
| "hashable v = True"

text \<open>
  A plain acknowledgment: a message that none of the handlers before \<open>handle_done\<close>
  claims or acts on, whatever the registry holds.
\<close>

definition plain_done :: "msg \<Rightarrow> bool" where
  "plain_done m =
     (map_of m tk = None \<and> \<not> has m ''new-session'' \<and> \<not> has m ''value'' \<and> \<not> has m ''info''
      \<and> \<not> has m ''root-ex'' \<and> \<not> has m ''ex''
      \<and> \<not> (truthy (get m (mw ''root-ex-class'')) \<and> truthy (get m (mw ''root-ex-msg'')))
      \<and> contains ''namespace-not-found'' (get m ''status'') = Inr False)"

text \<open>
  The four conditions of \<open>handle_exception\<close> in the spec's words.  \<open>root_cause\<close>: the
  message carries a structured root-cause class and message (both non-empty).
  \<open>summary\<close>: class, message, the extra data if there is any, and the source location
  when the record has no view to select it in.  \<open>failed\<close>: the record marked as
  failed with a text.  \<open>plain\<close>: a string or an integer, which \<open>format\<close> prints as
  it is.
\<close>

fun plain :: "pyval \<Rightarrow> bool" where
  "plain (PStr s) = True"
| "plain (PInt n) = True"
| "plain v = False"

definition root_cause :: "msg \<Rightarrow> bool" where
  "root_cause m = (truthy (get m (mw ''root-ex-class'')) \<and> truthy (get m (mw ''root-ex-msg'')))"

definition summary :: "msg \<Rightarrow> eval \<Rightarrow> string \<Rightarrow> string \<Rightarrow> string" where
  "summary m e c t =
     c @ '': '' @ t
     @ (case get m (mw ''root-ex-data'') of PStr d \<Rightarrow> if d = [] then [] else '' '' @ d | v \<Rightarrow> [])
     @ (if has m (mw ''line'') \<and> has m (mw ''column'') \<and> e_view e = None
           \<and> truthy (get m (mw ''source''))
        then '' ('' @ py_str (get m (mw ''source'')) @ '':'' @ py_str (get m (mw ''line''))
             @ '':'' @ py_str (get m (mw ''column'')) @ '')''
        else [])"

definition failed :: "pyval \<Rightarrow> eval \<Rightarrow> eval" where
  "failed v e = e\<lparr>e_status := ''exception'', e_value := v\<rparr>"

text \<open>
  A server that answers at once: a clone request gets a new session, any other request
  gets \<open>done\<close>.  \<open>answer_all n tok k s\<close> lets the server answer the requests sent from
  position \<open>k\<close> on, one at a time and at most \<open>n\<close> of them, each answer going through
  \<open>handle_msg\<close> before the next request is looked at.  \<open>started\<close> is the state when
  the reader thread has sent its clone request.
\<close>

definition server_reply :: "pyval \<Rightarrow> msg \<Rightarrow> msg" where
  "server_reply tok req =
     (if get req ''op'' = PStr ''clone''
      then [(''id'', get req ''id''), (''new-session'', tok), (''status'', PList [PStr ''done''])]
      else [(''id'', get req ''id''), (''session'', get req ''session''),
            (''status'', PList [PStr ''done''])])"

fun answer_all :: "nat \<Rightarrow> pyval \<Rightarrow> nat \<Rightarrow> state \<Rightarrow> state" where
  "answer_all 0 tok k s = s"
| "answer_all (Suc n) tok k s =
     (if k < length (sent s)
      then answer_all n tok (Suc k) (snd (handle_msg (server_reply tok (sent s ! k)) s))
      else s)"

definition started :: "string option \<Rightarrow> pyval \<Rightarrow> profile \<Rightarrow> pyval \<Rightarrow> state \<Rightarrow> state" where
  "started h p pr build s = snd (read_loop_start (connect h p pr build True s))"

text \<open>
  The requests of the handshake and the interrupt request for a record, as the source
  writes them.
\<close>

definition interrupt_msg :: "eval \<Rightarrow> msg" where
  "interrupt_msg e =
     [(''op'', PStr ''interrupt''), (''interrupt-id'', PInt (e_id e)), (''session'', e_session e)]"

definition add_middleware_msg :: "int \<Rightarrow> pyval \<Rightarrow> msg" where
  "add_middleware_msg i tok =
     [(''op'', PStr ''add-middleware''),
      (''middleware'', PList [PStr ''clojure-sublimed.middleware/clone-and-eval'',
                              PStr ''clojure-sublimed.middleware/time-eval'',
                              PStr ''clojure-sublimed.middleware/wrap-errors'',
                              PStr ''clojure-sublimed.middleware/wrap-output'']),
      (''extra-namespaces'', PList [PStr ''clojure-sublimed.middleware'']),
      (''session'', tok),
      (''id'', PInt i)]"

definition clone_msg :: msg where
  "clone_msg = [(''op'', PStr ''clone''), (''id'', PInt 1)]"

definition load_file_msg :: "pyval \<Rightarrow> string \<Rightarrow> msg" where
  "load_file_msg tok src =
     [(''op'', PStr ''load-file''), (''session'', tok), (''file'', PStr src), (''id'', PInt 2)]"

definition eval_shared_msg :: "pyval \<Rightarrow> pyval \<Rightarrow> msg" where
  "eval_shared_msg tok shared =
     [(''op'', PStr ''eval''), (''code'', shared), (''session'', tok), (''id'', PInt 4)]"

definition shadow_init_msg :: "pyval \<Rightarrow> pyval \<Rightarrow> msg" where
  "shadow_init_msg tok build =
     [(''op'', PStr ''eval''), (''session'', tok),
      (''code'', PStr (get_shadow_repl_init_cmd build)), (''id'', PInt 2)]"

text \<open>
  The default-profile handshake after the clone request was answered: the middleware
  file is on its way, the answer to request 2 is awaited.
\<close>

definition uploading :: state where
  "uploading =
     answer_all 1 (PStr ''s1'') 0
       (started (Some ''localhost'') (PInt 5555) CLOJURE PNone
          (plugin_loaded PNone False (PStr ''...'') ''(ns mw)''))"

text \<open>
  \<open>unread\<close>: the bytes of the stream that no \<open>read\<close> has returned yet, the rest
  of the buffer followed by what the socket will still deliver.  \<open>io_ok\<close>: the cursor
  is inside the buffer, as it is initially and after every \<open>read\<close> of a positive
  count.
\<close>

definition unread :: "socket_io \<Rightarrow> byte list" where
  "unread io =
     (case buffer io of None \<Rightarrow> [] | Some b \<Rightarrow> drop (nat (pos io)) b) @ concat (sock io)"

definition io_ok :: "socket_io \<Rightarrow> bool" where
  "io_ok io = (case buffer io of None \<Rightarrow> True | Some b \<Rightarrow> 0 \<le> pos io \<and> pos io \<le> int (length b))"

text \<open>
  An interrupt request, the identifiers of a list of requests, the requests a step
  writes to the socket, and the steps whose requests carry no session by construction
  (the clone request, the status-bar evaluation).
\<close>

definition is_interrupt :: "msg \<Rightarrow> bool" where
  "is_interrupt m =
     (get m ''op'' = PStr ''interrupt'' \<and> has m ''interrupt-id'' \<and> has m ''session''
      \<and> \<not> has m ''id'')"

fun request_ids :: "msg list \<Rightarrow> int list" where
  "request_ids [] = []"
| "request_ids (m # ms) =
     (case get m ''id'' of PInt i \<Rightarrow> i # request_ids ms | v \<Rightarrow> request_ids ms)"

definition new_requests :: "action \<Rightarrow> state \<Rightarrow> msg list" where
  "new_requests a s = drop (length (sent s)) (sent (snd (step a s)))"

fun sessionless :: "action \<Rightarrow> bool" where
  "sessionless Start_reading = True"
| "sessionless (Run_eval_code code nsarg parsed) = True"
| "sessionless a = False"

text \<open>
  What a step may do to the list of effects.  \<open>interrupts_only\<close>: the state changes
  in its registry only and the requests written are interrupts.  \<open>outcome\<close>: besides
  interrupts, at most one request with an id is written, and that id is a handshake
  number or the identifier just taken from \<open>Eval.next_id\<close>.
\<close>

definition interrupts_only :: "state \<Rightarrow> state \<Rightarrow> bool" where
  "interrupts_only s s' =
     (\<exists>X es. s' = s\<lparr>evals := X, effects := effects s @ es\<rparr>
             \<and> (\<forall>m\<in>set (requests es). is_interrupt m))"

definition main_ok :: "bool \<Rightarrow> state \<Rightarrow> msg \<Rightarrow> bool" where
  "main_ok nosess s' m =
     (has m ''op'' \<and> has m ''id''
      \<and> (nosess \<or> has m ''session'' \<and> get m ''session'' = session s'))"

definition outcome :: "bool \<Rightarrow> state \<Rightarrow> state \<Rightarrow> bool" where
  "outcome nosess s s' =
     (\<exists>es. effects s' = effects s @ es \<and> next_id s \<le> next_id s'
        \<and> (\<forall>m\<in>set (requests es). is_interrupt m \<or> main_ok nosess s' m)
        \<and> (request_ids (requests es) = []
            \<or> (\<exists>j\<in>{1, 2, 3, 4}. request_ids (requests es) = [j])
            \<or> (request_ids (requests es) = [next_id s] \<and> next_id s' = next_id s + 1)))"

text \<open>
  The handlers that follow \<open>handle_connect\<close> in \<open>handle_msg\<close>.
\<close>

definition after_connect :: "msg \<Rightarrow> state \<Rightarrow> (exn + bool) \<times> state" where
  "after_connect m =
    (or_else (handle_new_session m)
    (or_else (handle_value m)
    (or_else (handle_exception m)
    (or_else (handle_lookup m)
             (handle_done m)))))"

text \<open>
  The identifiers of records created one after another, each by \<open>Eval\<close> (with a view)
  or \<open>StatusEval\<close> (without).  \<open>ids_ok\<close>: every identifier sent so far is a handshake
  number or an allocated identifier, and the allocated ones were sent in increasing
  order.
\<close>

fun created_ids :: "(int option \<times> string) list \<Rightarrow> state \<Rightarrow> int list" where
  "created_ids [] s = []"
| "created_ids ((view, code) # cs) s =
     (let (e, s') = (case view of None \<Rightarrow> StatusEval_new code s | Some v \<Rightarrow> Eval_new v code s)
      in e_id e # created_ids cs s')"

definition ids_ok :: "state \<Rightarrow> bool" where
  "ids_ok s =
     (10 \<le> next_id s
      \<and> (\<forall>i\<in>set (request_ids (sent s)). i \<in> {1, 2, 3, 4} \<or> 10 \<le> i \<and> i < next_id s)
      \<and> sorted_wrt (<) (filter (\<lambda>i. 10 \<le> i) (request_ids (sent s))))"

text \<open>
  A session: connect, handshake without shared code, one evaluation.
\<close>

definition ex_session :: "action list" where
  "ex_session =
     [Connect (Some ''localhost'') (PInt 5555) CLOJURE PNone True,
      Start_reading,
      Receive [(''id'', PInt 1), (''new-session'', PStr ''s1''), (''status'', PList [PStr ''done''])],
      Receive [(''id'', PInt 2), (''session'', PStr ''s1''), (''status'', PList [PStr ''done''])],
      Receive [(''id'', PInt 4), (''session'', PStr ''s1''), (''status'', PList [PStr ''done''])],
      Run_eval ex_form None]"

section \<open>Properties\<close>

subsection \<open>Discarding a record\<close>

text \<open>
  C2 (as the code has it).  Discarding a registered record that is pending and has a
  session removes it from the registry and then sends exactly one interrupt request,
  carrying the record's id as \<open>interrupt-id\<close> and the record's session; the removal
  comes first.  Discarding any other record, in particular one that succeeded or
  failed, removes it and sends nothing.
\<close>

theorem erase_eval_interrupt_after_removal:
  assumes "map_of (evals s) (e_id e) = Some e" and "socket s"
  shows "(e_status e = ''pending'' \<and> truthy (e_session e) \<and> encodable (e_session e) \<longrightarrow>
            erase_eval e s =
              (Inr (), s\<lparr>evals := AList.delete (e_id e) (evals s),
                         effects := effects s @
                           [Removed (e_id e),
                            Sent [(''op'', PStr ''interrupt''),
                                  (''interrupt-id'', PInt (e_id e)),
                                  (''session'', e_session e)]]\<rparr>))
       \<and> (\<not> (e_status e = ''pending'' \<and> truthy (e_session e)) \<longrightarrow>
            erase_eval e s =
              (Inr (), s\<lparr>evals := AList.delete (e_id e) (evals s),
                         effects := effects s @ [Removed (e_id e)]\<rparr>))"
  using assms by (auto simp: erase_eval_def send_def Let_def)

theorem erase_eval_interrupt_after_removal_witness:
  "erase_eval (ex_eval 10 ''pending'' (PStr ''s2'')) (ex_state [(10, ex_eval 10 ''pending'' (PStr ''s2''))]) =
     (Inr (), (ex_state [(10, ex_eval 10 ''pending'' (PStr ''s2''))])
        \<lparr>evals := [], effects := [Removed 10, Sent [(''op'', PStr ''interrupt''), (''interrupt-id'', PInt 10), (''session'', PStr ''s2'')]]\<rparr>)
   \<and> erase_eval (ex_eval 10 ''success'' (PStr ''s2'')) (ex_state [(10, ex_eval 10 ''success'' (PStr ''s2''))]) =
     (Inr (), (ex_state [(10, ex_eval 10 ''success'' (PStr ''s2''))])\<lparr>evals := [], effects := [Removed 10]\<rparr>)
   \<and> erase_eval (ex_eval 12 ''pending'' (PStr ''s3''))
        (ex_state [(11, ex_eval 11 ''exception'' (PStr ''s2'')), (12, ex_eval 12 ''pending'' (PStr ''s3''))]) =
     (Inr (), (ex_state [(11, ex_eval 11 ''exception'' (PStr ''s2'')), (12, ex_eval 12 ''pending'' (PStr ''s3''))])
        \<lparr>evals := [(11, ex_eval 11 ''exception'' (PStr ''s2''))],
         effects := [Removed 12, Sent [(''op'', PStr ''interrupt''), (''interrupt-id'', PInt 12), (''session'', PStr ''s3'')]]\<rparr>)"
  using erase_eval_interrupt_after_removal [of "ex_state [(10, ex_eval 10 ''pending'' (PStr ''s2''))]" "ex_eval 10 ''pending'' (PStr ''s2'')"]
        erase_eval_interrupt_after_removal [of "ex_state [(10, ex_eval 10 ''success'' (PStr ''s2''))]" "ex_eval 10 ''success'' (PStr ''s2'')"]
        erase_eval_interrupt_after_removal
          [of "ex_state [(11, ex_eval 11 ''exception'' (PStr ''s2'')), (12, ex_eval 12 ''pending'' (PStr ''s3''))]"
              "ex_eval 12 ''pending'' (PStr ''s3'')"]
  by (simp add: ex_eval_def ex_state_def plugin_loaded_def AList.delete_eq)

text \<open>
  The claim as stated, with the interrupt ahead of the removal, fails for the pending
  record 10 with session \<open>s2\<close>: the effects are the removal, then the request.
\<close>

theorem erase_eval_interrupt_before_removal_counterexample:
  "\<not> (\<forall>e s. map_of (evals s) (e_id e) = Some e \<and> socket s \<and> e_status e = ''pending''
              \<and> truthy (e_session e) \<and> encodable (e_session e) \<longrightarrow>
           before (Sent [(''op'', PStr ''interrupt''), (''interrupt-id'', PInt (e_id e)),
                         (''session'', e_session e)])
                  (Removed (e_id e)) (effects (snd (erase_eval e s))))"
proof
  assume a: "\<forall>e s. map_of (evals s) (e_id e) = Some e \<and> socket s \<and> e_status e = ''pending''
              \<and> truthy (e_session e) \<and> encodable (e_session e) \<longrightarrow>
           before (Sent [(''op'', PStr ''interrupt''), (''interrupt-id'', PInt (e_id e)),
                         (''session'', e_session e)])
                  (Removed (e_id e)) (effects (snd (erase_eval e s)))"
  let ?e = "ex_eval 10 ''pending'' (PStr ''s2'')"
  let ?s = "ex_state [(10, ?e)]"
  have "before (Sent [(''op'', PStr ''interrupt''), (''interrupt-id'', PInt (e_id ?e)),
                      (''session'', e_session ?e)])
               (Removed (e_id ?e)) (effects (snd (erase_eval ?e ?s)))"
    using a [rule_format, of ?s ?e]
    by (simp add: ex_eval_def ex_state_def plugin_loaded_def)
  then show False
    by (simp add: erase_eval_def send_def ex_eval_def ex_state_def plugin_loaded_def)
qed

subsection \<open>Disconnecting\<close>

lemma requests_append: "requests (xs @ ys) = requests xs @ requests ys"
  by (induction xs rule: requests.induct) auto

text \<open>
  C7.  Disconnecting sends nothing: the requests written to the socket are the same
  before and after.  On a connection with a socket it resets the session token to
  \<open>None\<close>, empties the registry in one step, whatever the records' status, and drops
  the socket and the status line.
\<close>

theorem disconnect_clears_without_sending:
  "sent (disconnect s) = sent s
   \<and> (socket s \<longrightarrow>
        session (disconnect s) = PNone \<and> evals (disconnect s) = []
        \<and> status (disconnect s) = None \<and> \<not> socket (disconnect s)
        \<and> effects (disconnect s) = effects s @ [Cleared])"
  by (simp add: disconnect_def reset_def set_status_def sent_def requests_append)

theorem disconnect_clears_without_sending_witness:
  "sent (disconnect (ex_state [(10, ex_eval 10 ''pending'' (PStr ''s2''))])) = []
   \<and> session (disconnect (ex_state [(10, ex_eval 10 ''pending'' (PStr ''s2''))])) = PNone
   \<and> evals (disconnect (ex_state [(10, ex_eval 10 ''pending'' (PStr ''s2''))])) = []
   \<and> effects (disconnect (ex_state [(10, ex_eval 10 ''pending'' (PStr ''s2''))])) = [Cleared]"
  using disconnect_clears_without_sending [of "ex_state [(10, ex_eval 10 ''pending'' (PStr ''s2''))]"]
  by (simp add: ex_state_def plugin_loaded_def sent_def)

subsection \<open>Responses for unknown identifiers\<close>

lemma map_of_update_int:
  "(map_of (AList.update k v m) k' = Some (PInt i)) =
     (if k' = k then v = PInt i else map_of m k' = Some (PInt i))"
  by (simp add: AList.update_conv')

lemma truncate_keys_keeps_ints:
  "truncate_keys ks m = Inr m' \<Longrightarrow> (map_of m' k = Some (PInt i)) = (map_of m k = Some (PInt i))"
proof (induction ks m arbitrary: m' rule: truncate_keys.induct)
  case (1 m)
  then show ?case by simp
next
  case (2 key keys m)
  from "2.prems" obtain k0 v0 where it: "item_py m key = Inr (k0, v0)"
    by (auto split: sum.splits)
  then have key: "key = PStr k0" and v0: "map_of m k0 = Some v0"
    by (cases key; auto simp: bindE_def item_def split: option.splits)+
  show ?case
  proof (cases v0)
    case (PStr v)
    with "2.prems" it have "truncate_keys keys (AList.update k0 (PStr (v @ ''...'')) m) = Inr m'"
      by simp
    from "2.IH"(1) [OF it refl PStr this] show ?thesis
      using v0 PStr by (auto simp: map_of_update_int)
  next
    case (PList xs)
    with "2.prems" it have
      "truncate_keys (if k0 = tk then keys @ dots else keys) (AList.update k0 (PList (xs @ dots)) m) = Inr m'"
      by simp
    from "2.IH"(2) [OF it refl PList this] show ?thesis
      using v0 PList by (auto simp: map_of_update_int)
  qed (use "2.prems" it in auto)
qed

lemma truncated_keeps_ints:
  "truncated m = Inr m' \<Longrightarrow> (get m' k = PInt i) = (get m k = PInt i)"
proof -
  assume a: "truncated m = Inr m'"
  have "(map_of m' k = Some (PInt i)) = (map_of m k = Some (PInt i))"
  proof (cases "map_of m tk")
    case None
    with a show ?thesis by (simp add: truncated_def)
  next
    case (Some v)
    with a obtain ks where "iter v = Inr ks" "truncate_keys ks m = Inr m'"
      by (auto simp: truncated_def bindE_def split: sum.splits)
    then show ?thesis by (simp add: truncate_keys_keeps_ints)
  qed
  then show ?thesis
    by (auto simp: get_def split: option.splits)
qed

lemma registered_unknown:
  assumes "\<forall>i. v = PInt i \<longrightarrow> map_of (evals s) i = None"
  shows "registered v s = Inr None \<or> registered v s = Inl TypeError"
  using assms by (cases v) auto

lemma registered_unknown_hashable:
  assumes "\<forall>i. v = PInt i \<longrightarrow> map_of (evals s) i = None" and "hashable v"
  shows "registered v s = Inr None"
  using assms by (cases v) auto

lemma handle_connect_other_id:
  assumes "get m ''id'' \<noteq> PInt 1" "get m ''id'' \<noteq> PInt 2" "get m ''id'' \<noteq> PInt 3" "get m ''id'' \<noteq> PInt 4"
  shows "handle_connect m s = (Inr False, s)"
  using assms by (simp add: handle_connect_def)

lemma handle_new_session_unknown:
  assumes "registered (get m ''id'') s = Inr None \<or> registered (get m ''id'') s = Inl TypeError"
  shows "handle_new_session m s = (Inr False, s) \<or> handle_new_session m s = (Inl TypeError, s)"
  using assms by (auto simp: handle_new_session_def)

lemma handle_value_unknown:
  assumes "registered (get m ''id'') s = Inr None \<or> registered (get m ''id'') s = Inl TypeError"
  shows "handle_value m s = (Inr False, s) \<or> handle_value m s = (Inl TypeError, s)"
  using assms by (auto simp: handle_value_def)

lemma handle_exception_unknown:
  assumes "registered (get m ''id'') s = Inr None \<or> registered (get m ''id'') s = Inl TypeError"
  shows "handle_exception m s = (Inr False, s) \<or> handle_exception m s = (Inl TypeError, s)"
  using assms by (auto simp: handle_exception_def)

lemma handle_lookup_unknown:
  assumes "registered (get m ''id'') s = Inr None \<or> registered (get m ''id'') s = Inl TypeError"
  shows "handle_lookup m s = (Inr False, s) \<or> handle_lookup m s = (Inl TypeError, s)"
  using assms by (auto simp: handle_lookup_def)

lemma handle_done_unknown:
  assumes "registered (get m ''id'') s = Inr None \<or> registered (get m ''id'') s = Inl TypeError"
  shows "handle_done m s = (Inr False, s) \<or> handle_done m s = (Inl TypeError, s)"
  using assms by (auto simp: handle_done_def)

lemma or_else_same_state:
  assumes "h1 s = (Inr False, s) \<or> h1 s = (Inl TypeError, s)"
      and "h2 s = (Inr False, s) \<or> h2 s = (Inl TypeError, s)"
  shows "or_else h1 h2 s = (Inr False, s) \<or> or_else h1 h2 s = (Inl TypeError, s)"
  using assms by (auto simp: or_else_def)

lemma route_unknown:
  assumes "\<forall>i. get m ''id'' = PInt i \<longrightarrow> i \<notin> {1, 2, 3, 4} \<and> map_of (evals s) i = None"
  shows "route m s = (Inr False, s) \<or> route m s = (Inl TypeError, s)"
proof -
  have c: "handle_connect m s = (Inr False, s)"
    using assms by (intro handle_connect_other_id) auto
  have r: "registered (get m ''id'') s = Inr None \<or> registered (get m ''id'') s = Inl TypeError"
    using assms by (intro registered_unknown) auto
  show ?thesis
    unfolding route_def
    by (intro or_else_same_state handle_new_session_unknown handle_value_unknown
          handle_exception_unknown handle_lookup_unknown handle_done_unknown r disjI1 c)
qed

lemma route_unknown_hashable:
  assumes "\<forall>i. get m ''id'' = PInt i \<longrightarrow> i \<notin> {1, 2, 3, 4} \<and> map_of (evals s) i = None"
      and "hashable (get m ''id'')"
  shows "route m s = (Inr False, s)"
proof -
  have c: "handle_connect m s = (Inr False, s)"
    using assms by (intro handle_connect_other_id) auto
  have r: "registered (get m ''id'') s = Inr None"
    using assms by (intro registered_unknown_hashable) auto
  show ?thesis
    by (simp add: route_def or_else_def c r handle_new_session_def handle_value_def
          handle_exception_def handle_lookup_def handle_done_def)
qed

text \<open>
  C4.  A response whose id is not the integer of a handshake step (1 to 4) and not the
  id of a registered record leaves the whole state as it is: registry, session token,
  status and the requests sent.  This holds even when a handler raises (an unhashable
  id, a malformed truncated-keys entry); without a truncated-keys entry and with a
  hashable id, nothing is raised either.
\<close>

theorem handle_msg_unknown_id_is_noop:
  assumes "\<forall>i. get m ''id'' = PInt i \<longrightarrow> i \<notin> {1, 2, 3, 4} \<and> map_of (evals s) i = None"
  shows "snd (handle_msg m s) = s
         \<and> (map_of m tk = None \<and> hashable (get m ''id'') \<longrightarrow> handle_msg m s = (Inr (), s))"
proof
  show "snd (handle_msg m s) = s"
  proof (cases "truncated m")
    case (Inl x)
    then show ?thesis by (simp add: handle_msg_def)
  next
    case (Inr m')
    then have "\<forall>i. get m' ''id'' = PInt i \<longrightarrow> i \<notin> {1, 2, 3, 4} \<and> map_of (evals s) i = None"
      using assms by (simp add: truncated_keeps_ints)
    then have "route m' s = (Inr False, s) \<or> route m' s = (Inl TypeError, s)"
      by (rule route_unknown)
    with Inr show ?thesis by (auto simp: handle_msg_def)
  qed
next
  show "map_of m tk = None \<and> hashable (get m ''id'') \<longrightarrow> handle_msg m s = (Inr (), s)"
  proof
    assume a: "map_of m tk = None \<and> hashable (get m ''id'')"
    then have "truncated m = Inr m" by (simp add: truncated_def)
    moreover have "route m s = (Inr False, s)"
      using assms a by (intro route_unknown_hashable) auto
    ultimately show "handle_msg m s = (Inr (), s)" by (simp add: handle_msg_def)
  qed
qed

theorem handle_msg_unknown_id_is_noop_witness:
  "handle_msg [(''id'', PInt 10), (''value'', PStr ''3''), (''status'', PList [PStr ''done''])]
      (ex_state [(11, ex_eval 11 ''pending'' (PStr ''s2''))])
   = (Inr (), ex_state [(11, ex_eval 11 ''pending'' (PStr ''s2''))])"
  using handle_msg_unknown_id_is_noop
          [of "[(''id'', PInt 10), (''value'', PStr ''3''), (''status'', PList [PStr ''done''])]"
              "ex_state [(11, ex_eval 11 ''pending'' (PStr ''s2''))]"]
  by (simp add: get_def ex_state_def plugin_loaded_def tk_def)

subsection \<open>A done for a record that is still pending\<close>

lemma get_has: "get m k \<noteq> PNone \<Longrightarrow> has m k"
  by (auto simp: get_def has_def split: option.splits)

lemma contains_has: "contains x (get m k) = Inr b \<Longrightarrow> has m k"
  by (rule get_has) auto

lemma handle_done_pending:
  assumes "get m ''id'' = PInt i" and "map_of (evals s) i = Some e" and "e_id e = i"
    and "contains ''done'' (get m ''status'') = Inr True"
    and "e_status e = ''pending''" and "truthy (e_session e)" and "encodable (e_session e)"
    and "socket s"
  shows "handle_done m s =
           (Inr False, s\<lparr>evals := AList.delete i (evals s),
                          effects := effects s @
                            [Removed i,
                             Sent [(''op'', PStr ''interrupt''), (''interrupt-id'', PInt i),
                                   (''session'', e_session e)]]\<rparr>)"
proof -
  have "has m ''id''" using assms(1) by (intro get_has) simp
  moreover have "has m ''status''" using assms(4) by (rule contains_has)
  ultimately show ?thesis
    using assms by (simp add: handle_done_def erase_eval_def send_def)
qed

text \<open>
  C10.  When a response whose status list contains \<open>done\<close> arrives for a registered
  record that is still pending and has a session, \<open>handle_done\<close> discards the record
  and the request \<open>{"op": "interrupt", "interrupt-id": id, "session": session}\<close> with the
  record's id and session goes out, for a request the server has just reported as
  finished.  For a plain acknowledgment with an id outside the handshake numbers this
  is what \<open>handle_msg\<close> as a whole does.
\<close>

theorem done_for_pending_record_sends_interrupt:
  assumes "get m ''id'' = PInt i" and "map_of (evals s) i = Some e" and "e_id e = i"
    and "get m ''status'' = PList st" and "PStr ''done'' \<in> set st"
    and "e_status e = ''pending''" and "truthy (e_session e)" and "encodable (e_session e)"
    and "socket s"
  shows "handle_done m s =
           (Inr False, s\<lparr>evals := AList.delete i (evals s),
                          effects := effects s @
                            [Removed i,
                             Sent [(''op'', PStr ''interrupt''), (''interrupt-id'', PInt i),
                                   (''session'', e_session e)]]\<rparr>)
       \<and> (plain_done m \<and> i \<notin> {1, 2, 3, 4} \<longrightarrow>
            handle_msg m s =
              (Inr (), s\<lparr>evals := AList.delete i (evals s),
                          effects := effects s @
                            [Removed i,
                             Sent [(''op'', PStr ''interrupt''), (''interrupt-id'', PInt i),
                                   (''session'', e_session e)]]\<rparr>))"
proof
  have c: "contains ''done'' (get m ''status'') = Inr True"
    using assms(4,5) by simp
  show d: "handle_done m s =
           (Inr False, s\<lparr>evals := AList.delete i (evals s),
                          effects := effects s @
                            [Removed i,
                             Sent [(''op'', PStr ''interrupt''), (''interrupt-id'', PInt i),
                                   (''session'', e_session e)]]\<rparr>)"
    using assms(1,2,3) c assms(6,7,8,9) by (rule handle_done_pending)
  show "plain_done m \<and> i \<notin> {1, 2, 3, 4} \<longrightarrow>
            handle_msg m s =
              (Inr (), s\<lparr>evals := AList.delete i (evals s),
                          effects := effects s @
                            [Removed i,
                             Sent [(''op'', PStr ''interrupt''), (''interrupt-id'', PInt i),
                                   (''session'', e_session e)]]\<rparr>)"
  proof
    assume p: "plain_done m \<and> i \<notin> {1, 2, 3, 4}"
    have t: "truncated m = Inr m" using p by (simp add: plain_done_def truncated_def)
    have c: "handle_connect m s = (Inr False, s)"
      using p assms(1) by (simp add: handle_connect_def)
    have n: "handle_new_session m s = (Inr False, s)"
      using p by (simp add: plain_done_def handle_new_session_def)
    have v: "handle_value m s = (Inr False, s)"
      using p by (simp add: plain_done_def handle_value_def)
    have "has m ''id''" using assms(1) by (intro get_has) simp
    then have x: "handle_exception m s = (Inr False, s)"
      using p assms(1,2) by (auto simp: plain_done_def handle_exception_def)
    have l: "handle_lookup m s = (Inr False, s)"
      using p by (simp add: plain_done_def handle_lookup_def)
    show "handle_msg m s =
              (Inr (), s\<lparr>evals := AList.delete i (evals s),
                          effects := effects s @
                            [Removed i,
                             Sent [(''op'', PStr ''interrupt''), (''interrupt-id'', PInt i),
                                   (''session'', e_session e)]]\<rparr>)"
      by (simp add: handle_msg_def t route_def or_else_def c n v x l d)
  qed
qed

theorem done_for_pending_record_sends_interrupt_witness:
  "handle_msg [(''id'', PInt 10), (''session'', PStr ''s2''), (''status'', PList [PStr ''done''])]
      (ex_state [(10, ex_eval 10 ''pending'' (PStr ''s2''))])
   = (Inr (), (ex_state [(10, ex_eval 10 ''pending'' (PStr ''s2''))])
        \<lparr>evals := [],
         effects := [Removed 10,
                     Sent [(''op'', PStr ''interrupt''), (''interrupt-id'', PInt 10),
                           (''session'', PStr ''s2'')]]\<rparr>)
   \<and> handle_done [(''id'', PInt 12), (''status'', PList [PStr ''interrupted'', PStr ''done''])]
      (ex_state [(11, ex_eval 11 ''success'' (PStr ''s2'')), (12, ex_eval 12 ''pending'' (PStr ''s3''))])
   = (Inr False, (ex_state [(11, ex_eval 11 ''success'' (PStr ''s2'')), (12, ex_eval 12 ''pending'' (PStr ''s3''))])
        \<lparr>evals := [(11, ex_eval 11 ''success'' (PStr ''s2''))],
         effects := [Removed 12,
                     Sent [(''op'', PStr ''interrupt''), (''interrupt-id'', PInt 12),
                           (''session'', PStr ''s3'')]]\<rparr>)"
  using done_for_pending_record_sends_interrupt
          [of "[(''id'', PInt 10), (''session'', PStr ''s2''), (''status'', PList [PStr ''done''])]"
              10 "ex_state [(10, ex_eval 10 ''pending'' (PStr ''s2''))]"
              "ex_eval 10 ''pending'' (PStr ''s2'')" "[PStr ''done'']"]
        done_for_pending_record_sends_interrupt
          [of "[(''id'', PInt 12), (''status'', PList [PStr ''interrupted'', PStr ''done''])]"
              12 "ex_state [(11, ex_eval 11 ''success'' (PStr ''s2'')), (12, ex_eval 12 ''pending'' (PStr ''s3''))]"
              "ex_eval 12 ''pending'' (PStr ''s3'')" "[PStr ''interrupted'', PStr ''done'']"]
  by (simp add: get_def has_def ex_state_def ex_eval_def plugin_loaded_def tk_def plain_done_def
        mw_def AList.delete_eq)

subsection \<open>Classifying exceptions\<close>

lemma exception_text_summary:
  assumes "get m (mw ''root-ex-class'') = PStr c" and "get m (mw ''root-ex-msg'') = PStr t"
    and "get m (mw ''root-ex-data'') = PNone \<or> (\<exists>d. get m (mw ''root-ex-data'') = PStr d)"
    and "has m (mw ''line'') \<and> has m (mw ''column'') \<and> e_view e \<noteq> None
           \<longrightarrow> (\<exists>n. get m (mw ''line'') = PInt n)"
  shows "exception_text m e = Inr (PStr (summary m e c t))"
  using assms by (auto simp: exception_text_def summary_def bindE_def)

text \<open>
  C3 (as the code has it).  For a message of a registered record, \<open>handle_exception\<close>
  takes the first of its four branches whose condition holds, and no other.  The
  structured branch is the one for a root-cause class and a root-cause message that are
  both non-empty: the record is marked failed with the summary of class, message, data
  and source location, and the trace is attached, whether or not the message also has
  \<open>root-ex\<close> or \<open>ex\<close>.  When the class or the message is missing or empty, \<open>root-ex\<close>
  is used; otherwise \<open>ex\<close>; otherwise a namespace-not-found status names the namespace;
  otherwise nothing changes.  The texts are strings and the status a list, as the
  server sends them.
\<close>

theorem handle_exception_first_match:
  assumes "get m ''id'' = PInt i" and "map_of (evals s) i = Some e" and "e_id e = i"
  shows "(get m (mw ''root-ex-class'') = PStr c \<and> c \<noteq> [] \<and> get m (mw ''root-ex-msg'') = PStr t \<and> t \<noteq> []
          \<and> (get m (mw ''root-ex-data'') = PNone \<or> (\<exists>d. get m (mw ''root-ex-data'') = PStr d))
          \<and> (has m (mw ''line'') \<and> has m (mw ''column'') \<and> e_view e \<noteq> None
                \<longrightarrow> (\<exists>n. get m (mw ''line'') = PInt n) \<and> (\<exists>k. get m (mw ''column'') = PInt k))
          \<and> (has m (mw ''line'') \<and> has m (mw ''column'') \<and> e_view e = None
                \<and> truthy (get m (mw ''source''))
                \<longrightarrow> plain (get m (mw ''source'')) \<and> plain (get m (mw ''line''))
                    \<and> plain (get m (mw ''column'')))
          \<longrightarrow> handle_exception m s =
                (Inr True,
                 s\<lparr>evals := AList.update i
                      (failed (PStr (summary m e c t)) (e\<lparr>e_trace := get m (mw ''trace'')\<rparr>))
                      (evals s)\<rparr>))
       \<and> (\<not> root_cause m \<and> get m ''root-ex'' = PStr r
          \<longrightarrow> handle_exception m s =
                (Inr True, s\<lparr>evals := AList.update i (failed (PStr r) e) (evals s)\<rparr>))
       \<and> (\<not> root_cause m \<and> \<not> has m ''root-ex'' \<and> get m ''ex'' = PStr x
          \<longrightarrow> handle_exception m s =
                (Inr True, s\<lparr>evals := AList.update i (failed (PStr x) e) (evals s)\<rparr>))
       \<and> (\<not> root_cause m \<and> \<not> has m ''root-ex'' \<and> \<not> has m ''ex''
          \<and> get m ''status'' = PList st \<and> PStr ''namespace-not-found'' \<in> set st
          \<and> get m ''ns'' = PStr n
          \<longrightarrow> handle_exception m s =
                (Inr False,
                 s\<lparr>evals := AList.update i (failed (PStr (''Namespace not found: '' @ n)) e)
                      (evals s)\<rparr>))
       \<and> (\<not> root_cause m \<and> \<not> has m ''root-ex'' \<and> \<not> has m ''ex''
          \<and> (\<not> has m ''status''
               \<or> get m ''status'' = PList st \<and> PStr ''namespace-not-found'' \<notin> set st)
          \<longrightarrow> handle_exception m s = (Inr False, s))"
proof -
  have i: "has m ''id''" using assms(1) by (intro get_has) simp
  have r: "registered (get m ''id'') s = Inr (Some e)" using assms by simp
  show ?thesis
  proof (intro conjI impI)
    assume a: "get m (mw ''root-ex-class'') = PStr c \<and> c \<noteq> [] \<and> get m (mw ''root-ex-msg'') = PStr t \<and> t \<noteq> []
          \<and> (get m (mw ''root-ex-data'') = PNone \<or> (\<exists>d. get m (mw ''root-ex-data'') = PStr d))
          \<and> (has m (mw ''line'') \<and> has m (mw ''column'') \<and> e_view e \<noteq> None
                \<longrightarrow> (\<exists>n. get m (mw ''line'') = PInt n) \<and> (\<exists>k. get m (mw ''column'') = PInt k))
          \<and> (has m (mw ''line'') \<and> has m (mw ''column'') \<and> e_view e = None
                \<and> truthy (get m (mw ''source''))
                \<longrightarrow> plain (get m (mw ''source'')) \<and> plain (get m (mw ''line''))
                    \<and> plain (get m (mw ''column'')))"
    then have "exception_text m e = Inr (PStr (summary m e c t))"
      by (intro exception_text_summary) auto
    then show "handle_exception m s =
                (Inr True,
                 s\<lparr>evals := AList.update i
                      (failed (PStr (summary m e c t)) (e\<lparr>e_trace := get m (mw ''trace'')\<rparr>))
                      (evals s)\<rparr>)"
      using a i r assms(3)
      by (simp add: handle_exception_def failed_def update_eval_def set_eval_def)
  next
    assume a: "\<not> root_cause m \<and> get m ''root-ex'' = PStr r"
    then have "has m ''root-ex''" by (intro get_has) simp
    then show "handle_exception m s =
                (Inr True, s\<lparr>evals := AList.update i (failed (PStr r) e) (evals s)\<rparr>)"
      using a i r assms(3)
      by (auto simp: handle_exception_def failed_def update_eval_def set_eval_def root_cause_def)
  next
    assume a: "\<not> root_cause m \<and> \<not> has m ''root-ex'' \<and> get m ''ex'' = PStr x"
    then have "has m ''ex''" by (intro get_has) simp
    then show "handle_exception m s =
                (Inr True, s\<lparr>evals := AList.update i (failed (PStr x) e) (evals s)\<rparr>)"
      using a i r assms(3)
      by (auto simp: handle_exception_def failed_def update_eval_def set_eval_def root_cause_def)
  next
    assume a: "\<not> root_cause m \<and> \<not> has m ''root-ex'' \<and> \<not> has m ''ex''
          \<and> get m ''status'' = PList st \<and> PStr ''namespace-not-found'' \<in> set st
          \<and> get m ''ns'' = PStr n"
    then have c: "contains ''namespace-not-found'' (get m ''status'') = Inr True" by simp
    then have "has m ''status''" by (rule contains_has)
    moreover have "item m ''ns'' = Inr (PStr n)"
      using a by (auto simp: item_def get_def split: option.splits)
    ultimately show "handle_exception m s =
                (Inr False,
                 s\<lparr>evals := AList.update i (failed (PStr (''Namespace not found: '' @ n)) e)
                      (evals s)\<rparr>)"
      using a c i r assms(3)
      by (auto simp: handle_exception_def failed_def update_eval_def set_eval_def root_cause_def
            py_str_def)
  next
    assume a: "\<not> root_cause m \<and> \<not> has m ''root-ex'' \<and> \<not> has m ''ex''
          \<and> (\<not> has m ''status''
               \<or> get m ''status'' = PList st \<and> PStr ''namespace-not-found'' \<notin> set st)"
    then have "\<not> has m ''status'' \<or> contains ''namespace-not-found'' (get m ''status'') = Inr False"
      by auto
    then show "handle_exception m s = (Inr False, s)"
      using a i r by (auto simp: handle_exception_def root_cause_def)
  qed
qed

theorem handle_exception_first_match_witness:
  "handle_exception ex_exception (ex_state [(10, ex_eval 10 ''pending'' PNone)]) =
     (Inr True,
      ex_state [(10, (ex_eval 10 ''exception'' PNone)
                        \<lparr>e_value := PStr ''ArithmeticException: Divide by zero'',
                         e_trace := PStr ''at user.eval''\<rparr>)])
   \<and> handle_exception [(''id'', PInt 10), (''ex'', PStr ''E''), (''root-ex'', PStr ''R'')]
        (ex_state [(10, ex_eval 10 ''pending'' PNone)]) =
     (Inr True, ex_state [(10, (ex_eval 10 ''exception'' PNone)\<lparr>e_value := PStr ''R''\<rparr>)])
   \<and> handle_exception [(''id'', PInt 12), (''ex'', PStr ''class java.lang.Exception''),
                        (''status'', PList [PStr ''eval-error''])]
        (ex_state [(11, ex_eval 11 ''pending'' PNone), (12, ex_eval 12 ''pending'' PNone)]) =
     (Inr True,
      ex_state [(11, ex_eval 11 ''pending'' PNone),
                (12, (ex_eval 12 ''exception'' PNone)
                        \<lparr>e_value := PStr ''class java.lang.Exception''\<rparr>)])
   \<and> handle_exception [(''id'', PInt 10), (''ns'', PStr ''foo.bar''),
                        (''status'', PList [PStr ''done'', PStr ''error'',
                                            PStr ''namespace-not-found''])]
        (ex_state [(10, ex_eval 10 ''pending'' PNone)]) =
     (Inr False,
      ex_state [(10, (ex_eval 10 ''exception'' PNone)
                        \<lparr>e_value := PStr ''Namespace not found: foo.bar''\<rparr>)])
   \<and> handle_exception [(''id'', PInt 10), (''status'', PList [PStr ''done''])]
        (ex_state [(10, ex_eval 10 ''pending'' PNone)]) =
     (Inr False, ex_state [(10, ex_eval 10 ''pending'' PNone)])
   \<and> handle_exception
        [(''id'', PInt 10),
         (''clojure-sublimed.middleware/root-ex-class'', PStr ''ExceptionInfo''),
         (''clojure-sublimed.middleware/root-ex-msg'', PStr ''boom''),
         (''clojure-sublimed.middleware/root-ex-data'', PStr ''{:a 1}''),
         (''clojure-sublimed.middleware/source'', PStr ''core.clj''),
         (''clojure-sublimed.middleware/line'', PInt 12),
         (''clojure-sublimed.middleware/column'', PInt 3)]
        (ex_state [(10, (ex_eval 10 ''pending'' PNone)\<lparr>e_view := None\<rparr>)]) =
     (Inr True,
      ex_state [(10, (ex_eval 10 ''exception'' PNone)
                        \<lparr>e_view := None,
                         e_value := PStr ''ExceptionInfo: boom {:a 1} (core.clj:12:3)''\<rparr>)])"
proof -
  have d: "str_int 12 = ''12''" "str_int 3 = ''3''"
    by (simp_all add: str_int_def digits.simps)
  show ?thesis
  using handle_exception_first_match
          [of ex_exception 10 "ex_state [(10, ex_eval 10 ''pending'' PNone)]"
              "ex_eval 10 ''pending'' PNone" "''ArithmeticException''" "''Divide by zero''"
              "[]" "[]" "[]" "[]"]
        handle_exception_first_match
          [of "[(''id'', PInt 10), (''ex'', PStr ''E''), (''root-ex'', PStr ''R'')]" 10
              "ex_state [(10, ex_eval 10 ''pending'' PNone)]"
              "ex_eval 10 ''pending'' PNone" "[]" "[]" "''R''" "[]" "[]" "[]"]
        handle_exception_first_match
          [of "[(''id'', PInt 12), (''ex'', PStr ''class java.lang.Exception''),
                (''status'', PList [PStr ''eval-error''])]" 12
              "ex_state [(11, ex_eval 11 ''pending'' PNone), (12, ex_eval 12 ''pending'' PNone)]"
              "ex_eval 12 ''pending'' PNone" "[]" "[]" "[]" "''class java.lang.Exception''" "[]" "[]"]
        handle_exception_first_match
          [of "[(''id'', PInt 10), (''ns'', PStr ''foo.bar''),
                (''status'', PList [PStr ''done'', PStr ''error'', PStr ''namespace-not-found''])]" 10
              "ex_state [(10, ex_eval 10 ''pending'' PNone)]"
              "ex_eval 10 ''pending'' PNone" "[]" "[]" "[]" "[]"
              "[PStr ''done'', PStr ''error'', PStr ''namespace-not-found'']" "''foo.bar''"]
        handle_exception_first_match
          [of "[(''id'', PInt 10), (''status'', PList [PStr ''done''])]" 10
              "ex_state [(10, ex_eval 10 ''pending'' PNone)]"
              "ex_eval 10 ''pending'' PNone" "[]" "[]" "[]" "[]" "[PStr ''done'']" "[]"]
        handle_exception_first_match
          [of "[(''id'', PInt 10),
                (''clojure-sublimed.middleware/root-ex-class'', PStr ''ExceptionInfo''),
                (''clojure-sublimed.middleware/root-ex-msg'', PStr ''boom''),
                (''clojure-sublimed.middleware/root-ex-data'', PStr ''{:a 1}''),
                (''clojure-sublimed.middleware/source'', PStr ''core.clj''),
                (''clojure-sublimed.middleware/line'', PInt 12),
                (''clojure-sublimed.middleware/column'', PInt 3)]" 10
              "ex_state [(10, (ex_eval 10 ''pending'' PNone)\<lparr>e_view := None\<rparr>)]"
              "(ex_eval 10 ''pending'' PNone)\<lparr>e_view := None\<rparr>" "''ExceptionInfo''" "''boom''"
              "[]" "[]" "[]" "[]"]
  by (simp add: ex_exception_def get_def has_def mw_def ex_state_def ex_eval_def plugin_loaded_def
        summary_def failed_def root_cause_def py_str_def d)
qed

text \<open>
  The claim as stated, with the structured path for every message that carries both
  structured keys, fails for a message whose root-cause message is the empty string:
  the record takes the text of \<open>ex\<close>, and the trace of the message is not attached.
\<close>

theorem handle_exception_empty_message_counterexample:
  "handle_exception
      [(''id'', PInt 10),
       (''clojure-sublimed.middleware/root-ex-class'', PStr ''java.lang.Exception''),
       (''clojure-sublimed.middleware/root-ex-msg'', PStr []),
       (''clojure-sublimed.middleware/trace'', PStr ''at user.eval''),
       (''ex'', PStr ''class java.lang.Exception'')]
      (ex_state [(10, ex_eval 10 ''pending'' PNone)])
    = (Inr True,
       ex_state [(10, (ex_eval 10 ''exception'' PNone)
                         \<lparr>e_value := PStr ''class java.lang.Exception'', e_trace := PNone\<rparr>)])
   \<and> handle_exception
      [(''id'', PInt 10),
       (''clojure-sublimed.middleware/root-ex-class'', PStr ''java.lang.Exception''),
       (''clojure-sublimed.middleware/root-ex-msg'', PStr []),
       (''clojure-sublimed.middleware/trace'', PStr ''at user.eval''),
       (''ex'', PStr ''class java.lang.Exception'')]
      (ex_state [(10, ex_eval 10 ''pending'' PNone)])
    \<noteq> (Inr True,
       ex_state [(10, (ex_eval 10 ''exception'' PNone)
                         \<lparr>e_value := PStr ''java.lang.Exception: '',
                          e_trace := PStr ''at user.eval''\<rparr>)])"
  by (simp add: handle_exception_def get_def has_def mw_def ex_state_def ex_eval_def
        plugin_loaded_def set_eval_def update_eval_def)

subsection \<open>The handshake\<close>

lemma answer_all_done: "length (sent s) \<le> k \<Longrightarrow> answer_all n tok k s = s"
  by (cases n) auto

lemma started_state:
  "started h p pr build (plugin_loaded shared ins label src) =
     (plugin_loaded shared ins label src)
       \<lparr>host := h, port := p, profile := Some pr, cljs_build := build, socket := True,
        effects := [Sent [(''op'', PStr ''clone''), (''id'', PInt 1)]],
        status := Some Cloning_session\<rparr>"
  by (simp add: started_def read_loop_start_def connect_def send_def plugin_loaded_def set_status_def)

lemma truncated_no_tk: "map_of m tk = None \<Longrightarrow> truncated m = Inr m"
  by (simp add: truncated_def)

lemma handle_msg_claimed:
  "map_of m tk = None \<Longrightarrow> handle_connect m s = (Inr True, s') \<Longrightarrow> handle_msg m s = (Inr (), s')"
  by (simp add: handle_msg_def truncated_def route_def or_else_def)

lemma handle_msg_step:
  "map_of m tk = None \<Longrightarrow> handle_connect m s = (Inr True, s') \<Longrightarrow> snd (handle_msg m s) = s'"
  by (simp add: handle_msg_claimed)

lemma reply_clone:
  "server_reply tok clone_msg = [(''id'', PInt 1), (''new-session'', tok), (''status'', PList [PStr ''done''])]"
  by (simp add: server_reply_def clone_msg_def get_def)

lemma reply_other:
  "get req ''op'' \<noteq> PStr ''clone'' \<Longrightarrow>
   server_reply tok req = [(''id'', get req ''id''), (''session'', get req ''session''), (''status'', PList [PStr ''done''])]"
  by (simp add: server_reply_def)

lemma step_new_session:
  assumes "profile s \<noteq> Some SHADOW_CLJS" and "socket s" and "encodable tok"
  shows "snd (handle_msg [(''id'', PInt 1), (''new-session'', tok), (''status'', PList [PStr ''done''])] s)
         = s\<lparr>session := tok, effects := effects s @ [Sent (load_file_msg tok (middleware_clj s))],
              status := Some Uploading_middlewares\<rparr>"
  using assms
  by (intro handle_msg_step)
     (simp_all add: tk_def handle_connect_def get_def has_def send_def set_status_def load_file_msg_def)

lemma step_new_session_shadow:
  assumes "profile s = Some SHADOW_CLJS" and "socket s" and "encodable tok"
  shows "snd (handle_msg [(''id'', PInt 1), (''new-session'', tok), (''status'', PList [PStr ''done''])] s)
         = s\<lparr>session := tok, effects := effects s @ [Sent (shadow_init_msg tok (cljs_build s))]\<rparr>"
  using assms
  by (intro handle_msg_step)
     (simp_all add: tk_def handle_connect_def get_def has_def send_def set_status_def shadow_init_msg_def)

lemma step_done_2:
  assumes "profile s \<noteq> Some SHADOW_CLJS" and "socket s" and "encodable (session s)"
  shows "snd (handle_msg [(''id'', PInt 2), (''session'', x), (''status'', PList [PStr ''done''])] s)
         = s\<lparr>effects := effects s @ [Sent (add_middleware_msg (if truthy (eval_shared s) then 3 else 4) (session s))],
              status := Some Adding_middlewares\<rparr>"
  using assms
  by (intro handle_msg_step)
     (simp_all add: tk_def handle_connect_def get_def has_def send_def set_status_def add_middleware_msg_def)

lemma step_done_2_shadow:
  assumes "profile s = Some SHADOW_CLJS"
  shows "snd (handle_msg [(''id'', PInt 2), (''session'', x), (''status'', PList [PStr ''done''])] s)
         = s\<lparr>status := Some (Connected (host s) (port s))\<rparr>"
  using assms
  by (intro handle_msg_step)
     (simp_all add: tk_def handle_connect_def get_def has_def set_status_def status_connected_def)

lemma step_done_3:
  assumes "profile s \<noteq> Some SHADOW_CLJS" and "socket s" and "encodable (session s)"
      and "encodable (eval_shared s)" and "evals s = []"
  shows "snd (handle_msg [(''id'', PInt 3), (''session'', x), (''status'', PList [PStr ''done''])] s)
         = s\<lparr>effects := effects s @ [Sent (eval_shared_msg (session s) (eval_shared s))]\<rparr>"
  using assms
  by (simp add: handle_msg_def truncated_def tk_def route_def or_else_def handle_connect_def get_def
        has_def send_def eval_shared_msg_def handle_new_session_def handle_value_def
        handle_exception_def handle_lookup_def handle_done_def)

lemma step_done_4:
  assumes "profile s \<noteq> Some SHADOW_CLJS"
  shows "snd (handle_msg [(''id'', PInt 4), (''session'', x), (''status'', PList [PStr ''done''])] s)
         = s\<lparr>status := Some (Connected (host s) (port s))\<rparr>"
  using assms
  by (intro handle_msg_step)
     (simp_all add: tk_def handle_connect_def get_def has_def set_status_def status_connected_def)

lemma answer_all_step:
  assumes "k < length (sent s)"
  shows "answer_all (Suc n) tok k s = answer_all n tok (Suc k) (snd (handle_msg (server_reply tok (sent s ! k)) s))"
  using assms by simp

lemma reply_load_file:
  "server_reply tok (load_file_msg t src) = [(''id'', PInt 2), (''session'', t), (''status'', PList [PStr ''done''])]"
  by (simp add: server_reply_def load_file_msg_def get_def)

lemma reply_add_middleware:
  "server_reply tok (add_middleware_msg i t) = [(''id'', PInt i), (''session'', t), (''status'', PList [PStr ''done''])]"
  by (simp add: server_reply_def add_middleware_msg_def get_def)

lemma reply_eval_shared:
  "server_reply tok (eval_shared_msg t c) = [(''id'', PInt 4), (''session'', t), (''status'', PList [PStr ''done''])]"
  by (simp add: server_reply_def eval_shared_msg_def get_def)

lemma reply_shadow_init:
  "server_reply tok (shadow_init_msg t b) = [(''id'', PInt 2), (''session'', t), (''status'', PList [PStr ''done''])]"
  by (simp add: server_reply_def shadow_init_msg_def get_def)

lemma handshake_default_shared:
  assumes "encodable tok" and "truthy shared" and "encodable shared"
  shows "answer_all (4 + n) tok 0 (started h p CLOJURE build (plugin_loaded shared ins label src)) =
     (plugin_loaded shared ins label src)
       \<lparr>host := h, port := p, profile := Some CLOJURE, cljs_build := build, socket := True,
        session := tok,
        effects := [Sent clone_msg, Sent (load_file_msg tok src), Sent (add_middleware_msg 3 tok),
                    Sent (eval_shared_msg tok shared)],
        status := Some (Connected h p)\<rparr>"
proof -
  let ?P = "plugin_loaded shared ins label src"
  let ?s0 = "?P\<lparr>host := h, port := p, profile := Some CLOJURE, cljs_build := build, socket := True,
        effects := [Sent clone_msg], status := Some Cloning_session\<rparr>"
  let ?s1 = "?s0\<lparr>session := tok, effects := [Sent clone_msg, Sent (load_file_msg tok src)],
                 status := Some Uploading_middlewares\<rparr>"
  let ?s2 = "?s1\<lparr>effects := [Sent clone_msg, Sent (load_file_msg tok src), Sent (add_middleware_msg 3 tok)],
                 status := Some Adding_middlewares\<rparr>"
  let ?s3 = "?s2\<lparr>effects := [Sent clone_msg, Sent (load_file_msg tok src), Sent (add_middleware_msg 3 tok),
                    Sent (eval_shared_msg tok shared)]\<rparr>"
  let ?s4 = "?s3\<lparr>status := Some (Connected h p)\<rparr>"
  have n: "4 + n = Suc (Suc (Suc (Suc n)))" by simp
  have s0: "started h p CLOJURE build ?P = ?s0"
    by (simp add: started_state clone_msg_def)
  have a1: "snd (handle_msg (server_reply tok clone_msg) ?s0) = ?s1"
    using assms by (simp add: sent_def reply_clone step_new_session plugin_loaded_def)
  have a2: "snd (handle_msg (server_reply tok (load_file_msg tok src)) ?s1) = ?s2"
    using assms by (simp add: sent_def reply_load_file step_done_2 plugin_loaded_def)
  have a3: "snd (handle_msg (server_reply tok (add_middleware_msg 3 tok)) ?s2) = ?s3"
    using assms by (simp add: sent_def reply_add_middleware step_done_3 plugin_loaded_def)
  have a4: "snd (handle_msg (server_reply tok (eval_shared_msg tok shared)) ?s3) = ?s4"
    using assms by (simp add: sent_def reply_eval_shared step_done_4 plugin_loaded_def)
  have "answer_all (4 + n) tok 0 ?s0 = answer_all (Suc (Suc (Suc n))) tok (Suc 0) ?s1"
    unfolding n by (subst answer_all_step) (use a1 in \<open>simp_all add: sent_def del: answer_all.simps\<close>)
  also have "\<dots> = answer_all (Suc (Suc n)) tok (Suc (Suc 0)) ?s2"
    by (subst answer_all_step) (use a2 in \<open>simp_all add: sent_def del: answer_all.simps\<close>)
  also have "\<dots> = answer_all (Suc n) tok (Suc (Suc (Suc 0))) ?s3"
    by (subst answer_all_step) (use a3 in \<open>simp_all add: sent_def del: answer_all.simps\<close>)
  also have "\<dots> = answer_all n tok (Suc (Suc (Suc (Suc 0)))) ?s4"
    by (subst answer_all_step) (use a4 in \<open>simp_all add: sent_def del: answer_all.simps\<close>)
  also have "\<dots> = ?s4"
    by (rule answer_all_done) (simp add: sent_def)
  finally show ?thesis
    by (simp add: s0)
qed

lemma handshake_default_plain:
  assumes "encodable tok" and "\<not> truthy shared"
  shows "answer_all (4 + n) tok 0 (started h p CLOJURE build (plugin_loaded shared ins label src)) =
     (plugin_loaded shared ins label src)
       \<lparr>host := h, port := p, profile := Some CLOJURE, cljs_build := build, socket := True,
        session := tok,
        effects := [Sent clone_msg, Sent (load_file_msg tok src), Sent (add_middleware_msg 4 tok)],
        status := Some (Connected h p)\<rparr>"
proof -
  let ?P = "plugin_loaded shared ins label src"
  let ?s0 = "?P\<lparr>host := h, port := p, profile := Some CLOJURE, cljs_build := build, socket := True,
        effects := [Sent clone_msg], status := Some Cloning_session\<rparr>"
  let ?s1 = "?s0\<lparr>session := tok, effects := [Sent clone_msg, Sent (load_file_msg tok src)],
                 status := Some Uploading_middlewares\<rparr>"
  let ?s2 = "?s1\<lparr>effects := [Sent clone_msg, Sent (load_file_msg tok src), Sent (add_middleware_msg 4 tok)],
                 status := Some Adding_middlewares\<rparr>"
  let ?s3 = "?s2\<lparr>status := Some (Connected h p)\<rparr>"
  have n: "4 + n = Suc (Suc (Suc (Suc n)))" by simp
  have s0: "started h p CLOJURE build ?P = ?s0"
    by (simp add: started_state clone_msg_def)
  have a1: "snd (handle_msg (server_reply tok clone_msg) ?s0) = ?s1"
    using assms by (simp add: sent_def reply_clone step_new_session plugin_loaded_def)
  have a2: "snd (handle_msg (server_reply tok (load_file_msg tok src)) ?s1) = ?s2"
    using assms by (simp add: sent_def reply_load_file step_done_2 plugin_loaded_def)
  have a3: "snd (handle_msg (server_reply tok (add_middleware_msg 4 tok)) ?s2) = ?s3"
    using assms by (simp add: sent_def reply_add_middleware step_done_4 plugin_loaded_def)
  have "answer_all (4 + n) tok 0 ?s0 = answer_all (Suc (Suc (Suc n))) tok (Suc 0) ?s1"
    unfolding n by (subst answer_all_step) (use a1 in \<open>simp_all add: sent_def del: answer_all.simps\<close>)
  also have "\<dots> = answer_all (Suc (Suc n)) tok (Suc (Suc 0)) ?s2"
    by (subst answer_all_step) (use a2 in \<open>simp_all add: sent_def del: answer_all.simps\<close>)
  also have "\<dots> = answer_all (Suc n) tok (Suc (Suc (Suc 0))) ?s3"
    by (subst answer_all_step) (use a3 in \<open>simp_all add: sent_def del: answer_all.simps\<close>)
  also have "\<dots> = ?s3"
    by (rule answer_all_done) (simp add: sent_def)
  finally show ?thesis
    by (simp add: s0)
qed

lemma handshake_shadow_first:
  assumes "encodable tok"
  shows "answer_all 1 tok 0 (started h p SHADOW_CLJS build (plugin_loaded shared ins label src)) =
     (plugin_loaded shared ins label src)
       \<lparr>host := h, port := p, profile := Some SHADOW_CLJS, cljs_build := build, socket := True,
        session := tok,
        effects := [Sent clone_msg, Sent (shadow_init_msg tok build)],
        status := Some Cloning_session\<rparr>"
proof -
  let ?P = "plugin_loaded shared ins label src"
  let ?s0 = "?P\<lparr>host := h, port := p, profile := Some SHADOW_CLJS, cljs_build := build, socket := True,
        effects := [Sent clone_msg], status := Some Cloning_session\<rparr>"
  let ?s1 = "?s0\<lparr>session := tok, effects := [Sent clone_msg, Sent (shadow_init_msg tok build)]\<rparr>"
  have s0: "started h p SHADOW_CLJS build ?P = ?s0"
    by (simp add: started_state clone_msg_def)
  have a1: "snd (handle_msg (server_reply tok clone_msg) ?s0) = ?s1"
    using assms by (simp add: sent_def reply_clone step_new_session_shadow plugin_loaded_def)
  have "answer_all (Suc 0) tok 0 ?s0 = answer_all 0 tok (Suc 0) ?s1"
    by (subst answer_all_step) (use a1 in \<open>simp_all add: sent_def del: answer_all.simps\<close>)
  then show ?thesis
    by (simp add: s0)
qed

lemma handshake_shadow:
  assumes "encodable tok"
  shows "answer_all (2 + n) tok 0 (started h p SHADOW_CLJS build (plugin_loaded shared ins label src)) =
     (plugin_loaded shared ins label src)
       \<lparr>host := h, port := p, profile := Some SHADOW_CLJS, cljs_build := build, socket := True,
        session := tok,
        effects := [Sent clone_msg, Sent (shadow_init_msg tok build)],
        status := Some (Connected h p)\<rparr>"
proof -
  let ?P = "plugin_loaded shared ins label src"
  let ?s0 = "?P\<lparr>host := h, port := p, profile := Some SHADOW_CLJS, cljs_build := build, socket := True,
        effects := [Sent clone_msg], status := Some Cloning_session\<rparr>"
  let ?s1 = "?s0\<lparr>session := tok, effects := [Sent clone_msg, Sent (shadow_init_msg tok build)]\<rparr>"
  let ?s2 = "?s1\<lparr>status := Some (Connected h p)\<rparr>"
  have n: "2 + n = Suc (Suc n)" by simp
  have s0: "started h p SHADOW_CLJS build ?P = ?s0"
    by (simp add: started_state clone_msg_def)
  have a1: "snd (handle_msg (server_reply tok clone_msg) ?s0) = ?s1"
    using assms by (simp add: sent_def reply_clone step_new_session_shadow plugin_loaded_def)
  have a2: "snd (handle_msg (server_reply tok (shadow_init_msg tok build)) ?s1) = ?s2"
    using assms by (simp add: sent_def reply_shadow_init step_done_2_shadow plugin_loaded_def)
  have "answer_all (2 + n) tok 0 ?s0 = answer_all (Suc n) tok (Suc 0) ?s1"
    unfolding n by (subst answer_all_step) (use a1 in \<open>simp_all add: sent_def del: answer_all.simps\<close>)
  also have "\<dots> = answer_all n tok (Suc (Suc 0)) ?s2"
    by (subst answer_all_step) (use a2 in \<open>simp_all add: sent_def del: answer_all.simps\<close>)
  also have "\<dots> = ?s2"
    by (rule answer_all_done) (simp add: sent_def)
  finally show ?thesis
    by (simp add: s0)
qed

text \<open>
  C1.  With a server that answers every request at once, the requests sent after
  connect are, for the default profile, \<open>clone\<close> with id 1, \<open>load-file\<close> of the
  middleware source with id 2, then \<open>add-middleware\<close> with the four middlewares of the
  plugin, under id 3 and followed by the \<open>eval\<close> of the shared code with id 4 when shared
  code is configured, under id 4 and followed by nothing when it is not; the connection
  then shows as connected.  For the shadow-cljs profile they are \<open>clone\<close> with id 1 and
  the \<open>eval\<close> of the build's initialisation command with id 2; the connection shows as
  connected after the answer to request 2 and not before.
\<close>

theorem handshake_request_sequence:
  assumes "encodable tok" and "truthy shared \<longrightarrow> encodable shared"
  shows "sent (answer_all (4 + n) tok 0 (started h p CLOJURE build (plugin_loaded shared ins label src)))
           = [[(''op'', PStr ''clone''), (''id'', PInt 1)],
              [(''op'', PStr ''load-file''), (''session'', tok), (''file'', PStr src),
               (''id'', PInt 2)],
              [(''op'', PStr ''add-middleware''),
               (''middleware'', PList [PStr ''clojure-sublimed.middleware/clone-and-eval'',
                                       PStr ''clojure-sublimed.middleware/time-eval'',
                                       PStr ''clojure-sublimed.middleware/wrap-errors'',
                                       PStr ''clojure-sublimed.middleware/wrap-output'']),
               (''extra-namespaces'', PList [PStr ''clojure-sublimed.middleware'']),
               (''session'', tok),
               (''id'', PInt (if truthy shared then 3 else 4))]]
             @ (if truthy shared
                then [[(''op'', PStr ''eval''), (''code'', shared), (''session'', tok),
                       (''id'', PInt 4)]]
                else [])
       \<and> status (answer_all (4 + n) tok 0 (started h p CLOJURE build (plugin_loaded shared ins label src)))
           = Some (Connected h p)
       \<and> sent (answer_all (2 + n) tok 0 (started h p SHADOW_CLJS (PStr b) (plugin_loaded shared ins label src)))
           = [[(''op'', PStr ''clone''), (''id'', PInt 1)],
              [(''op'', PStr ''eval''), (''session'', tok),
               (''code'', PStr (if b = ''node-repl'' then ''(shadow.cljs.devtools.api/node-repl)''
                                else if b = ''browser-repl''
                                     then ''(shadow.cljs.devtools.api/browser-repl)''
                                else ''(shadow.cljs.devtools.api/repl '' @ b @ '')'')),
               (''id'', PInt 2)]]
       \<and> status (answer_all 1 tok 0 (started h p SHADOW_CLJS build (plugin_loaded shared ins label src)))
           = Some Cloning_session
       \<and> status (answer_all (2 + n) tok 0 (started h p SHADOW_CLJS build (plugin_loaded shared ins label src)))
           = Some (Connected h p)"
proof -
  let ?P = "plugin_loaded shared ins label src"
  have sh: "answer_all (2 + n) tok 0 (started h p SHADOW_CLJS x ?P) =
     ?P\<lparr>host := h, port := p, profile := Some SHADOW_CLJS, cljs_build := x, socket := True,
        session := tok, effects := [Sent clone_msg, Sent (shadow_init_msg tok x)],
        status := Some (Connected h p)\<rparr>" for x
    using assms(1) by (rule handshake_shadow)
  have sh1: "answer_all 1 tok 0 (started h p SHADOW_CLJS build ?P) =
     ?P\<lparr>host := h, port := p, profile := Some SHADOW_CLJS, cljs_build := build, socket := True,
        session := tok, effects := [Sent clone_msg, Sent (shadow_init_msg tok build)],
        status := Some Cloning_session\<rparr>"
    using assms(1) by (rule handshake_shadow_first)
  have cmd: "get_shadow_repl_init_cmd (PStr b) =
       (if b = ''node-repl'' then ''(shadow.cljs.devtools.api/node-repl)''
        else if b = ''browser-repl'' then ''(shadow.cljs.devtools.api/browser-repl)''
        else ''(shadow.cljs.devtools.api/repl '' @ b @ '')'')"
    by (simp add: get_shadow_repl_init_cmd_def py_str_def)
  show ?thesis
  proof (cases "truthy shared")
    case True
    have d: "answer_all (4 + n) tok 0 (started h p CLOJURE build ?P) =
       ?P\<lparr>host := h, port := p, profile := Some CLOJURE, cljs_build := build, socket := True,
          session := tok,
          effects := [Sent clone_msg, Sent (load_file_msg tok src), Sent (add_middleware_msg 3 tok),
                      Sent (eval_shared_msg tok shared)],
          status := Some (Connected h p)\<rparr>"
      using assms True by (intro handshake_default_shared) auto
    show ?thesis
      unfolding d sh sh1 using True
      by (simp add: sent_def clone_msg_def load_file_msg_def add_middleware_msg_def
            eval_shared_msg_def shadow_init_msg_def cmd)
  next
    case False
    have d: "answer_all (4 + n) tok 0 (started h p CLOJURE build ?P) =
       ?P\<lparr>host := h, port := p, profile := Some CLOJURE, cljs_build := build, socket := True,
          session := tok,
          effects := [Sent clone_msg, Sent (load_file_msg tok src), Sent (add_middleware_msg 4 tok)],
          status := Some (Connected h p)\<rparr>"
      using assms False by (intro handshake_default_plain) auto
    show ?thesis
      unfolding d sh sh1 using False
      by (simp add: sent_def clone_msg_def load_file_msg_def add_middleware_msg_def
            eval_shared_msg_def shadow_init_msg_def cmd)
  qed
qed

theorem handshake_request_sequence_witness:
  "sent (answer_all 4 (PStr ''s1'') 0
           (started (Some ''localhost'') (PInt 5555) CLOJURE PNone
              (plugin_loaded (PStr ''(require (quote user))'') False (PStr ''...'') ''(ns mw)'')))
     = [[(''op'', PStr ''clone''), (''id'', PInt 1)],
        [(''op'', PStr ''load-file''), (''session'', PStr ''s1''), (''file'', PStr ''(ns mw)''),
         (''id'', PInt 2)],
        [(''op'', PStr ''add-middleware''),
         (''middleware'', PList [PStr ''clojure-sublimed.middleware/clone-and-eval'',
                                 PStr ''clojure-sublimed.middleware/time-eval'',
                                 PStr ''clojure-sublimed.middleware/wrap-errors'',
                                 PStr ''clojure-sublimed.middleware/wrap-output'']),
         (''extra-namespaces'', PList [PStr ''clojure-sublimed.middleware'']),
         (''session'', PStr ''s1''),
         (''id'', PInt 3)],
        [(''op'', PStr ''eval''), (''code'', PStr ''(require (quote user))''),
         (''session'', PStr ''s1''), (''id'', PInt 4)]]
   \<and> sent (answer_all 4 (PStr ''s1'') 0
           (started (Some ''localhost'') (PInt 5555) CLOJURE PNone
              (plugin_loaded PNone False (PStr ''...'') ''(ns mw)'')))
     = [[(''op'', PStr ''clone''), (''id'', PInt 1)],
        [(''op'', PStr ''load-file''), (''session'', PStr ''s1''), (''file'', PStr ''(ns mw)''),
         (''id'', PInt 2)],
        [(''op'', PStr ''add-middleware''),
         (''middleware'', PList [PStr ''clojure-sublimed.middleware/clone-and-eval'',
                                 PStr ''clojure-sublimed.middleware/time-eval'',
                                 PStr ''clojure-sublimed.middleware/wrap-errors'',
                                 PStr ''clojure-sublimed.middleware/wrap-output'']),
         (''extra-namespaces'', PList [PStr ''clojure-sublimed.middleware'']),
         (''session'', PStr ''s1''),
         (''id'', PInt 4)]]
   \<and> sent (answer_all 2 (PStr ''s1'') 0
           (started (Some ''localhost'') (PInt 5555) SHADOW_CLJS (PStr '':app'')
              (plugin_loaded PNone False (PStr ''...'') ''(ns mw)'')))
     = [[(''op'', PStr ''clone''), (''id'', PInt 1)],
        [(''op'', PStr ''eval''), (''session'', PStr ''s1''),
         (''code'', PStr ''(shadow.cljs.devtools.api/repl :app)''), (''id'', PInt 2)]]
   \<and> status (answer_all 1 (PStr ''s1'') 0
           (started (Some ''localhost'') (PInt 5555) SHADOW_CLJS (PStr '':app'')
              (plugin_loaded PNone False (PStr ''...'') ''(ns mw)'')))
     = Some Cloning_session
   \<and> status (answer_all 2 (PStr ''s1'') 0
           (started (Some ''localhost'') (PInt 5555) SHADOW_CLJS (PStr '':app'')
              (plugin_loaded PNone False (PStr ''...'') ''(ns mw)'')))
     = Some (Connected (Some ''localhost'') (PInt 5555))"
  using handshake_request_sequence
          [of "PStr ''s1''" "PStr ''(require (quote user))''" 0 "Some ''localhost''" "PInt 5555" PNone
              False "PStr ''...''" "''(ns mw)''" "'':app''"]
        handshake_request_sequence
          [of "PStr ''s1''" PNone 0 "Some ''localhost''" "PInt 5555" PNone
              False "PStr ''...''" "''(ns mw)''" "'':app''"]
        handshake_request_sequence
          [of "PStr ''s1''" PNone 0 "Some ''localhost''" "PInt 5555" "PStr '':app''"
              False "PStr ''...''" "''(ns mw)''" "'':app''"]
  by (simp add: numeral_eq_Suc del: answer_all.simps)

lemma uploading_state:
  "uploading =
     (plugin_loaded PNone False (PStr ''...'') ''(ns mw)'')
       \<lparr>host := Some ''localhost'', port := PInt 5555, profile := Some CLOJURE, socket := True,
        session := PStr ''s1'',
        effects := [Sent clone_msg, Sent (load_file_msg (PStr ''s1'') ''(ns mw)'')],
        status := Some Uploading_middlewares\<rparr>"
proof -
  let ?P = "plugin_loaded PNone False (PStr ''...'') ''(ns mw)''"
  let ?s0 = "?P\<lparr>host := Some ''localhost'', port := PInt 5555, profile := Some CLOJURE,
                 cljs_build := PNone, socket := True,
                 effects := [Sent clone_msg], status := Some Cloning_session\<rparr>"
  have s0: "started (Some ''localhost'') (PInt 5555) CLOJURE PNone ?P = ?s0"
    by (simp add: started_state clone_msg_def)
  have a1: "snd (handle_msg (server_reply (PStr ''s1'') clone_msg) ?s0) =
              ?s0\<lparr>session := PStr ''s1'',
                   effects := [Sent clone_msg, Sent (load_file_msg (PStr ''s1'') ''(ns mw)'')],
                   status := Some Uploading_middlewares\<rparr>"
    by (simp add: reply_clone step_new_session plugin_loaded_def)
  show ?thesis
    unfolding uploading_def s0 One_nat_def
    by (subst answer_all_step) (use a1 in \<open>simp_all add: sent_def plugin_loaded_def\<close>)
qed

text \<open>
  C6 (the code at the failing input).  In the default-profile handshake the answer to
  request 2 is compared with the list \<open>["done"]\<close>.  A status that contains \<open>done\<close>
  next to another marker is not taken as the acknowledgment: no handler claims the
  message, nothing is sent and the handshake stays where it is.  With the status
  \<open>["done"]\<close> alone the add-middleware request goes out.
\<close>

theorem done_with_other_marker_is_ignored:
  "handle_connect [(''id'', PInt 2), (''status'', PList [PStr ''done'', PStr ''error''])] uploading
     = (Inr False, uploading)
   \<and> handle_msg [(''id'', PInt 2), (''status'', PList [PStr ''done'', PStr ''error''])] uploading
     = (Inr (), uploading)
   \<and> sent uploading =
       [[(''op'', PStr ''clone''), (''id'', PInt 1)],
        [(''op'', PStr ''load-file''), (''session'', PStr ''s1''), (''file'', PStr ''(ns mw)''),
         (''id'', PInt 2)]]
   \<and> handle_msg [(''id'', PInt 2), (''status'', PList [PStr ''done''])] uploading
     = (Inr (), uploading\<lparr>effects := effects uploading @
                            [Sent [(''op'', PStr ''add-middleware''),
                                   (''middleware'',
                                    PList [PStr ''clojure-sublimed.middleware/clone-and-eval'',
                                           PStr ''clojure-sublimed.middleware/time-eval'',
                                           PStr ''clojure-sublimed.middleware/wrap-errors'',
                                           PStr ''clojure-sublimed.middleware/wrap-output'']),
                                   (''extra-namespaces'', PList [PStr ''clojure-sublimed.middleware'']),
                                   (''session'', PStr ''s1''),
                                   (''id'', PInt 4)]],
                          status := Some Adding_middlewares\<rparr>)"
  unfolding uploading_state
  by (simp add: handle_msg_def truncated_def tk_def route_def or_else_def handle_connect_def get_def
        has_def send_def handle_new_session_def handle_value_def handle_exception_def
        handle_lookup_def handle_done_def plugin_loaded_def sent_def set_status_def
        clone_msg_def load_file_msg_def)

subsection \<open>The byte source\<close>

lemma recv_append: "concat cs = fst (recv n cs) @ concat (snd (recv n cs))"
  by (induction cs) auto

lemma recv_length: "length (fst (recv n cs)) \<le> n"
  by (induction cs) auto

lemma recv_empty: "0 < n \<Longrightarrow> (fst (recv n cs) = []) = (concat cs = [])"
  by (induction cs) (auto simp del: concat_eq_Nil_conv)

lemma py_slice_inside:
  "0 \<le> b \<Longrightarrow> b \<le> e \<Longrightarrow> e \<le> int (length xs) \<Longrightarrow>
   py_slice xs b e = take (nat e - nat b) (drop (nat b) xs)"
  by (simp add: py_slice_def slice_index_def Let_def min_def)

lemma read_refill:
  assumes "0 < n" and "recv 4096 cs = (b, cs')"
  defines "fin \<equiv> min n (int (length b))"
  shows "read n \<lparr>sock = cs, buffer = None, pos = p\<rparr>
           = (take (nat fin) b, \<lparr>sock = cs', buffer = Some b, pos = fin\<rparr>)"
    and "buf = [] \<or> int (length buf) \<le> p \<Longrightarrow>
         read n \<lparr>sock = cs, buffer = Some buf, pos = p\<rparr>
           = (take (nat fin) b, \<lparr>sock = cs', buffer = Some b, pos = fin\<rparr>)"
  using assms by (auto simp: read_def Let_def py_slice_inside)

lemma read_buffered:
  assumes "0 < n" and "buf \<noteq> []" and "0 \<le> p" and "p < int (length buf)"
  defines "fin \<equiv> min (p + n) (int (length buf))"
  shows "read n \<lparr>sock = cs, buffer = Some buf, pos = p\<rparr>
           = (take (nat fin - nat p) (drop (nat p) buf), \<lparr>sock = cs, buffer = Some buf, pos = fin\<rparr>)"
  using assms by (auto simp: read_def Let_def py_slice_inside)

lemma read_step:
  assumes "0 < n" and "io_ok io"
  shows "int (length (fst (read n io))) \<le> n
       \<and> unread io = fst (read n io) @ unread (snd (read n io))
       \<and> (fst (read n io) = [] \<longleftrightarrow> unread io = [])
       \<and> io_ok (snd (read n io))"
proof -
  obtain cs bo p where io: "io = \<lparr>sock = cs, buffer = bo, pos = p\<rparr>"
    by (cases io) auto
  obtain b cs' where r: "recv 4096 cs = (b, cs')"
    by (cases "recv 4096 cs") auto
  have rc: "concat cs = b @ concat cs'" "(b = []) = (concat cs = [])"
    using recv_append [of cs 4096] recv_empty [of 4096 cs] r by simp_all
  show ?thesis
  proof (cases "bo = None \<or> (\<exists>buf. bo = Some buf \<and> (buf = [] \<or> int (length buf) \<le> p))")
    case True
    define fin where "fin = min n (int (length b))"
    have rd: "read n io = (take (nat fin) b, \<lparr>sock = cs', buffer = Some b, pos = fin\<rparr>)"
      using True read_refill [OF assms(1) r] io unfolding fin_def by auto
    have u: "unread io = concat cs"
      using True assms(2) io by (auto simp: unread_def io_ok_def)
    have f: "0 \<le> fin" "fin \<le> int (length b)" "fin \<le> n" "(fin = 0) = (b = [])"
      using assms(1) by (auto simp: fin_def min_def)
    have e: "(take (nat fin) b = []) = (b = [])"
      using f by (cases b) auto
    have l: "int (length (take (nat fin) b)) \<le> n"
      using f by simp
    have a: "concat cs = take (nat fin) b @ unread \<lparr>sock = cs', buffer = Some b, pos = fin\<rparr>"
      by (simp add: unread_def rc(1))
    have z: "(take (nat fin) b = []) = (concat cs = [])"
      by (simp only: e rc(2))
    have k: "io_ok \<lparr>sock = cs', buffer = Some b, pos = fin\<rparr>"
      using f by (simp add: io_ok_def)
    show ?thesis
      unfolding rd u fst_conv snd_conv using l a z k by blast
  next
    case False
    then obtain buf where b: "bo = Some buf" "buf \<noteq> []" "p < int (length buf)"
      by (cases bo) auto
    have p0: "0 \<le> p" using assms(2) io b by (simp add: io_ok_def)
    define fin where "fin = min (p + n) (int (length buf))"
    have rd: "read n io = (take (nat fin - nat p) (drop (nat p) buf), \<lparr>sock = cs, buffer = Some buf, pos = fin\<rparr>)"
      using read_buffered [OF assms(1) b(2) p0 b(3)] io b unfolding fin_def by simp
    have f: "p < fin" "fin \<le> int (length buf)" "fin - p \<le> n"
      using assms(1) b(3) by (auto simp: fin_def min_def)
    have d: "drop (nat p) buf = take (nat fin - nat p) (drop (nat p) buf) @ drop (nat fin) buf"
    proof -
      have "nat fin - nat p + nat p = nat fin" using f p0 by simp
      then have "drop (nat fin - nat p) (drop (nat p) buf) = drop (nat fin) buf"
        by (simp only: drop_drop)
      then show ?thesis
        using append_take_drop_id [of "nat fin - nat p" "drop (nat p) buf"] by simp
    qed
    have ne: "take (nat fin - nat p) (drop (nat p) buf) \<noteq> []"
      using f p0 b(3) by auto
    have u: "unread io = drop (nat p) buf @ concat cs"
      using io b by (simp add: unread_def)
    have ne2: "drop (nat p) buf \<noteq> []" using b(3) p0 by auto
    have l: "int (length (take (nat fin - nat p) (drop (nat p) buf))) \<le> n"
      using f p0 by simp
    have a: "drop (nat p) buf @ concat cs =
               take (nat fin - nat p) (drop (nat p) buf) @ unread \<lparr>sock = cs, buffer = Some buf, pos = fin\<rparr>"
      using d by (simp add: unread_def)
    have z: "(take (nat fin - nat p) (drop (nat p) buf) = []) = (drop (nat p) buf @ concat cs = [])"
      using ne ne2 by simp
    have k: "io_ok \<lparr>sock = cs, buffer = Some buf, pos = fin\<rparr>"
      using f p0 by (simp add: io_ok_def)
    show ?thesis
      unfolding rd u fst_conv snd_conv using l a z k by blast
  qed
qed

lemma reads_concat:
  assumes "\<forall>n\<in>set ns. 0 < n" and "io_ok io"
  shows "concat (fst (reads ns io)) @ unread (snd (reads ns io)) = unread io \<and> io_ok (snd (reads ns io))"
  using assms
proof (induction ns arbitrary: io)
  case Nil
  then show ?case by simp
next
  case (Cons n ns)
  have n: "0 < n" using Cons.prems by simp
  note r = read_step [OF n Cons.prems(2)]
  have "concat (fst (reads ns (snd (read n io)))) @ unread (snd (reads ns (snd (read n io))))
          = unread (snd (read n io)) \<and> io_ok (snd (reads ns (snd (read n io))))"
    using Cons.prems r by (intro Cons.IH) auto
  then show ?case
    using r by (auto simp: split_beta)
qed

text \<open>
  C9.  A \<open>read(n)\<close> with \<open>n > 0\<close> returns at most \<open>n\<close> bytes; what it returns is
  the front of the bytes not yet returned, and those bytes are gone from the unread
  rest, so no byte is delivered twice; the result is empty exactly when nothing is
  left to deliver, which is the end of the stream.  Over any sequence of such reads on
  a fresh source, the results put together and the unread rest make up the stream.
\<close>

theorem read_delivers_fresh_bytes:
  assumes "0 < n" and "io_ok io" and "\<forall>k\<in>set ns. 0 < k"
  shows "int (length (fst (read n io))) \<le> n
       \<and> unread io = fst (read n io) @ unread (snd (read n io))
       \<and> (fst (read n io) = [] \<longleftrightarrow> unread io = [])
       \<and> io_ok (snd (read n io))
       \<and> concat (fst (reads ns (SocketIO chunks))) @ unread (snd (reads ns (SocketIO chunks)))
           = concat chunks"
proof -
  have ok: "io_ok (SocketIO chunks)" by (simp add: io_ok_def SocketIO_def)
  have u: "unread (SocketIO chunks) = concat chunks" by (simp add: unread_def SocketIO_def)
  have b: "concat (fst (reads ns (SocketIO chunks))) @ unread (snd (reads ns (SocketIO chunks)))
             = concat chunks"
    using reads_concat [OF assms(3) ok] by (simp only: u)
  show ?thesis
    using read_step [OF assms(1,2)] b by blast
qed

theorem read_delivers_fresh_bytes_witness:
  "fst (reads [2, 2, 2, 2] (SocketIO [[1, 2, 3], [4, 5]])) = [[1, 2], [3], [4, 5], []]
   \<and> unread (snd (reads [2, 2, 2, 2] (SocketIO [[1, 2, 3], [4, 5]]))) = []
   \<and> fst (read 2 (SocketIO [[1, 2, 3], [4, 5]])) = [1, 2]
   \<and> unread (snd (read 2 (SocketIO [[1, 2, 3], [4, 5]]))) = [3, 4, 5]"
proof -
  have r1: "read 2 (SocketIO [[1, 2, 3], [4, 5]])
             = ([1, 2], \<lparr>sock = [[4, 5]], buffer = Some [1, 2, 3], pos = 2\<rparr>)"
    by (simp add: SocketIO_def read_def py_slice_def slice_index_def Let_def)
  have r2: "read 2 \<lparr>sock = [[4, 5]], buffer = Some [1, 2, 3], pos = 2\<rparr>
             = ([3], \<lparr>sock = [[4, 5]], buffer = Some [1, 2, 3], pos = 3\<rparr>)"
    by (simp add: read_def py_slice_def slice_index_def Let_def)
  have r3: "read 2 \<lparr>sock = [[4, 5]], buffer = Some [1, 2, 3], pos = 3\<rparr>
             = ([4, 5], \<lparr>sock = [], buffer = Some [4, 5], pos = 2\<rparr>)"
    by (simp add: read_def py_slice_def slice_index_def Let_def)
  have r4: "read 2 \<lparr>sock = [], buffer = Some [4, 5], pos = 2\<rparr>
             = ([], \<lparr>sock = [], buffer = Some [], pos = 0\<rparr>)"
    by (simp add: read_def py_slice_def slice_index_def Let_def)
  have r: "reads [2, 2, 2, 2] (SocketIO [[1, 2, 3], [4, 5]])
             = ([[1, 2], [3], [4, 5], []], \<lparr>sock = [], buffer = Some [], pos = 0\<rparr>)"
    by (simp add: r1 r2 r3 r4)
  show ?thesis
    using read_delivers_fresh_bytes
            [of 2 "SocketIO [[1, 2, 3], [4, 5]]" "[2, 2, 2, 2]" "[[1, 2, 3], [4, 5]]"]
    unfolding r r1 by (simp add: unread_def io_ok_def SocketIO_def)
qed

subsection \<open>The requests of a step\<close>

lemma interrupts_only_refl: "interrupts_only s s"
  unfolding interrupts_only_def
  by (rule exI [of _ "evals s"], rule exI [of _ "[]"]) simp

lemma interrupts_only_evals: "interrupts_only s (s\<lparr>evals := X\<rparr>)"
  unfolding interrupts_only_def
  by (rule exI [of _ X], rule exI [of _ "[]"]) simp

lemma interrupts_only_trans:
  assumes "interrupts_only s s1" and "interrupts_only s1 s2"
  shows "interrupts_only s s2"
proof -
  from assms(1) obtain X es where 1: "s1 = s\<lparr>evals := X, effects := effects s @ es\<rparr>"
      "\<forall>m\<in>set (requests es). is_interrupt m"
    unfolding interrupts_only_def by blast
  from assms(2) obtain Y fs where 2: "s2 = s1\<lparr>evals := Y, effects := effects s1 @ fs\<rparr>"
      "\<forall>m\<in>set (requests fs). is_interrupt m"
    unfolding interrupts_only_def by blast
  have "s2 = s\<lparr>evals := Y, effects := effects s @ (es @ fs)\<rparr>"
    using 1(1) 2(1) by simp
  moreover have "\<forall>m\<in>set (requests (es @ fs)). is_interrupt m"
    using 1(2) 2(2) by (auto simp: requests_append)
  ultimately show ?thesis
    unfolding interrupts_only_def by blast
qed

lemma is_interrupt_msg: "is_interrupt (interrupt_msg e)"
  by (simp add: is_interrupt_def interrupt_msg_def get_def has_def)

lemma send_interrupt:
  assumes "is_interrupt m"
  shows "interrupts_only s (snd (send m s))"
proof (cases "socket s \<and> encodable (PDict m)")
  case True
  then have "snd (send m s) = s\<lparr>evals := evals s, effects := effects s @ [Sent m]\<rparr>"
    by (simp add: send_def)
  then show ?thesis
    unfolding interrupts_only_def using assms by (intro exI [of _ "evals s"] exI [of _ "[Sent m]"]) simp
next
  case False
  then have "snd (send m s) = s" by (auto simp: send_def)
  then show ?thesis by (simp add: interrupts_only_refl)
qed

lemma erase_eval_interrupts: "interrupts_only s (snd (erase_eval e s))"
proof (cases "map_of (evals s) (e_id e) = None")
  case True
  then show ?thesis by (simp add: erase_eval_def interrupts_only_refl)
next
  case False
  let ?s1 = "s\<lparr>evals := AList.delete (e_id e) (evals s), effects := effects s @ [Removed (e_id e)]\<rparr>"
  have 1: "interrupts_only s ?s1"
    unfolding interrupts_only_def
    by (intro exI [of _ "AList.delete (e_id e) (evals s)"] exI [of _ "[Removed (e_id e)]"]) simp
  have 2: "interrupts_only ?s1 (snd (send (interrupt_msg e) ?s1))"
    by (rule send_interrupt) (rule is_interrupt_msg)
  have "snd (erase_eval e s) = ?s1 \<or> snd (erase_eval e s) = snd (send (interrupt_msg e) ?s1)"
    using False by (auto simp: erase_eval_def interrupt_msg_def Let_def)
  then show ?thesis
  proof
    assume "snd (erase_eval e s) = ?s1"
    then show ?thesis using 1 by simp
  next
    assume "snd (erase_eval e s) = snd (send (interrupt_msg e) ?s1)"
    then show ?thesis using interrupts_only_trans [OF 1 2] by simp
  qed
qed

lemma erase_each_interrupts: "interrupts_only s (snd (erase_each p es s))"
proof (induction es arbitrary: s)
  case Nil
  then show ?case by (simp add: interrupts_only_refl)
next
  case (Cons e es)
  show ?case
  proof (cases "p e")
    case False
    then show ?thesis using Cons.IH by simp
  next
    case True
    obtain r s1 where r: "erase_eval e s = (r, s1)" by (cases "erase_eval e s") auto
    have 1: "interrupts_only s s1" using erase_eval_interrupts [of s e] r by simp
    show ?thesis
    proof (cases r)
      case (Inl x)
      then show ?thesis using True r 1 by simp
    next
      case (Inr u)
      then have "snd (erase_each p (e # es) s) = snd (erase_each p es s1)"
        using True r by simp
      then show ?thesis
        using interrupts_only_trans [OF 1 Cons.IH [of s1]] by simp
    qed
  qed
qed

lemma erase_evals_interrupts: "interrupts_only s (snd (erase_evals p view s))"
  by (simp add: erase_evals_def erase_each_interrupts)

lemma interrupt_each_interrupts: "interrupts_only s (snd (interrupt_each es s))"
proof (induction es arbitrary: s)
  case Nil
  then show ?case by (simp add: interrupts_only_refl)
next
  case (Cons e es)
  show ?case
  proof (cases "e_status e = ''pending''")
    case False
    then show ?thesis using Cons.IH by simp
  next
    case True
    let ?m = "[(''op'', PStr ''interrupt''), (''session'', e_session e), (''interrupt-id'', PInt (e_id e))]"
    obtain r s1 where r: "send ?m s = (r, s1)" by (cases "send ?m s") auto
    have "is_interrupt ?m" by (simp add: is_interrupt_def get_def has_def)
    then have 1: "interrupts_only s s1" using send_interrupt [of ?m s] r by simp
    show ?thesis
    proof (cases r)
      case (Inl x)
      then show ?thesis using True r 1 by simp
    next
      case (Inr u)
      let ?s2 = "set_eval (update_eval ''interrupt'' (PStr ''Interrupting...'') e) s1"
      have 2: "interrupts_only s1 ?s2"
        by (simp add: set_eval_def interrupts_only_evals)
      have "snd (interrupt_each (e # es) s) = snd (interrupt_each es ?s2)"
        using True r Inr by simp
      then show ?thesis
        using interrupts_only_trans [OF interrupts_only_trans [OF 1 2] Cons.IH [of ?s2]] by simp
    qed
  qed
qed

lemma request_ids_append: "request_ids (xs @ ys) = request_ids xs @ request_ids ys"
  by (induction xs) (auto split: pyval.splits)

lemma request_ids_interrupts: "\<forall>m\<in>set ms. is_interrupt m \<Longrightarrow> request_ids ms = []"
  by (induction ms) (auto simp: is_interrupt_def has_def get_def split: option.splits pyval.splits)

lemma outcome_interrupts:
  assumes "interrupts_only s s'"
  shows "outcome b s s'"
proof -
  from assms obtain X es where 1: "s' = s\<lparr>evals := X, effects := effects s @ es\<rparr>"
      "\<forall>m\<in>set (requests es). is_interrupt m"
    unfolding interrupts_only_def by blast
  have "request_ids (requests es) = []" using 1(2) by (rule request_ids_interrupts)
  then show ?thesis
    unfolding outcome_def using 1 by (intro exI [of _ es]) simp
qed

lemma outcome_quiet:
  assumes "effects s' = effects s" and "next_id s' = next_id s"
  shows "outcome b s s'"
  unfolding outcome_def using assms by (intro exI [of _ "[]"]) simp

lemma outcome_alloc_send:
  assumes io: "interrupts_only s s1"
    and m: "has m ''op''" "get m ''id'' = PInt (next_id s)"
           "nosess \<or> has m ''session'' \<and> get m ''session'' = session s"
    and s': "s' = s1\<lparr>next_id := next_id s + 1, evals := Y\<rparr>
             \<or> s' = s1\<lparr>next_id := next_id s + 1, evals := Y, effects := effects s1 @ [Sent m]\<rparr>"
  shows "outcome nosess s s'"
proof -
  from io obtain X es where 1: "s1 = s\<lparr>evals := X, effects := effects s @ es\<rparr>"
      "\<forall>m\<in>set (requests es). is_interrupt m"
    unfolding interrupts_only_def by blast
  have ids: "request_ids (requests es) = []" using 1(2) by (rule request_ids_interrupts)
  have hid: "has m ''id''" using m(2) by (auto simp: has_def get_def split: option.splits)
  from s' show ?thesis
  proof
    assume a: "s' = s1\<lparr>next_id := next_id s + 1, evals := Y\<rparr>"
    show ?thesis
      unfolding outcome_def using a 1 ids by (intro exI [of _ es]) simp
  next
    assume a: "s' = s1\<lparr>next_id := next_id s + 1, evals := Y, effects := effects s1 @ [Sent m]\<rparr>"
    have mk: "main_ok nosess s' m"
      using m hid a 1 by (auto simp: main_ok_def)
    show ?thesis
      unfolding outcome_def using a 1 ids mk m(2)
      by (intro exI [of _ "es @ [Sent m]"]) (auto simp: requests_append request_ids_append)
  qed
qed

lemma map_of_dict_update_opts:
  assumes "k \<notin> {''nrepl.middleware.caught/caught'', ''nrepl.middleware.print/print'',
                 ''nrepl.middleware.print/quota''}"
  shows "map_of (dict_update d (get_middleware_opts s)) k = map_of d k"
  using assms by (simp add: dict_update_def get_middleware_opts_def AList.update_conv')

lemma eval_msg_outcome:
  assumes "map_of (filter (\<lambda>kv. truthy (snd kv)) m) ''op'' \<noteq> None"
  shows "outcome False s (snd (eval_msg f m s))"
proof -
  obtain r s1 where r: "erase_evals (f_touching f) (Some (f_view f)) s = (r, s1)"
    by (cases "erase_evals (f_touching f) (Some (f_view f)) s") auto
  have io: "interrupts_only s s1"
    using erase_evals_interrupts [of s "f_touching f" "Some (f_view f)"] r by simp
  then have fr: "next_id s1 = next_id s" "session s1 = session s"
    unfolding interrupts_only_def by auto
  show ?thesis
  proof (cases r)
    case (Inl x)
    then have "snd (eval_msg f m s) = s1" using r by (simp add: eval_msg_def)
    then show ?thesis using io by (simp add: outcome_interrupts)
  next
    case (Inr u)
    define m4 where "m4 = dict_update
        (AList.update ''session'' (session s)
          (AList.update ''id'' (PInt (next_id s)) (filter (\<lambda>kv. truthy (snd kv)) m)))
        (get_middleware_opts s1)"
    have g: "has m4 ''op''" "get m4 ''id'' = PInt (next_id s)"
            "has m4 ''session'' \<and> get m4 ''session'' = session s"
      using assms
      by (auto simp: m4_def has_def get_def map_of_dict_update_opts AList.update_conv')
    have gm: "get_middleware_opts (s1\<lparr>next_id := next_id s + 1\<rparr>) = get_middleware_opts s1"
      by (simp add: get_middleware_opts_def)
    let ?Y = "evals (snd (eval_msg f m s))"
    have "snd (eval_msg f m s) = s1\<lparr>next_id := next_id s + 1, evals := ?Y\<rparr>
             \<or> snd (eval_msg f m s) = s1\<lparr>next_id := next_id s + 1, evals := ?Y, effects := effects s1 @ [Sent m4]\<rparr>"
      using r Inr fr gm
      by (simp add: eval_msg_def Eval_new_def Let_def add_eval_def send_def set_eval_def m4_def)
    then show ?thesis
      using io g by (intro outcome_alloc_send [of s s1 m4 False _ ?Y]) auto
  qed
qed

lemma eval_outcome: "outcome False s (snd (eval f code s))"
  unfolding eval_def by (rule eval_msg_outcome) simp

lemma eval_buffer_outcome: "outcome False s (snd (eval_buffer f s))"
  unfolding eval_buffer_def by (rule eval_msg_outcome) simp

lemma eval_code_outcome: "outcome True s (snd (eval_code code nsarg parsed s))"
proof -
  obtain r s1 where r: "erase_evals finished_status_eval None s = (r, s1)"
    by (cases "erase_evals finished_status_eval None s") auto
  have io: "interrupts_only s s1"
    using erase_evals_interrupts [of s finished_status_eval None] r by simp
  then have fr: "next_id s1 = next_id s"
    unfolding interrupts_only_def by auto
  show ?thesis
  proof (cases r)
    case (Inl x)
    then have "snd (eval_code code nsarg parsed s) = s1" using r by (simp add: eval_code_def)
    then show ?thesis using io by (simp add: outcome_interrupts)
  next
    case (Inr u)
    define nsname where "nsname = (if truthy nsarg then nsarg else parsed)"
    define m4 where "m4 = dict_update
        [(''op'', PStr ''eval''), (''id'', PInt (next_id s)),
         (''ns'', if truthy nsname then nsname else PStr ''user''), (''code'', PStr code)]
        (get_middleware_opts s1)"
    have g: "has m4 ''op''" "get m4 ''id'' = PInt (next_id s)"
      by (auto simp: m4_def has_def get_def map_of_dict_update_opts)
    have gm: "get_middleware_opts (s1\<lparr>next_id := next_id s + 1\<rparr>) = get_middleware_opts s1"
      by (simp add: get_middleware_opts_def)
    let ?Y = "evals (snd (eval_code code nsarg parsed s))"
    have "snd (eval_code code nsarg parsed s) = s1\<lparr>next_id := next_id s + 1, evals := ?Y\<rparr>
        \<or> snd (eval_code code nsarg parsed s)
            = s1\<lparr>next_id := next_id s + 1, evals := ?Y, effects := effects s1 @ [Sent m4]\<rparr>"
      using r Inr fr gm
      by (simp add: eval_code_def StatusEval_new_def Let_def add_eval_def send_def set_eval_def
            m4_def nsname_def)
    then show ?thesis
      using io g by (intro outcome_alloc_send [of s s1 m4 True _ ?Y]) auto
  qed
qed

lemma toggle_symbol_outcome: "outcome False s (snd (toggle_symbol v found symb s))"
proof (cases "case found of None \<Rightarrow> None | Some i \<Rightarrow> map_of (evals_by_view s v) i")
  case (Some e)
  then have "snd (toggle_symbol v found symb s) = snd (erase_eval e s)"
    by (simp add: toggle_symbol_def)
  then show ?thesis
    using erase_eval_interrupts [of s e] by (simp add: outcome_interrupts)
next
  case None
  show ?thesis
  proof (cases symb)
    case N: None
    then show ?thesis using None by (simp add: toggle_symbol_def outcome_interrupts interrupts_only_refl)
  next
    case (Some f)
    obtain r s1 where r: "erase_evals (f_touching f) (Some v) s = (r, s1)"
      by (cases "erase_evals (f_touching f) (Some v) s") auto
    have io: "interrupts_only s s1"
      using erase_evals_interrupts [of s "f_touching f" "Some v"] r by simp
    then have fr: "next_id s1 = next_id s" "session s1 = session s"
      unfolding interrupts_only_def by auto
    show ?thesis
    proof (cases r)
      case (Inl x)
      then have "snd (toggle_symbol v found symb s) = s1"
        using r None Some by (simp add: toggle_symbol_def)
      then show ?thesis using io by (simp add: outcome_interrupts)
    next
      case (Inr u)
      define m4 where "m4 =
        [(''op'', PStr ''lookup''), (''sym'', PStr (f_code f)), (''session'', session s),
         (''id'', PInt (next_id s)), (''ns'', if truthy (f_ns f) then f_ns f else PStr ''user'')]"
      have g: "has m4 ''op''" "get m4 ''id'' = PInt (next_id s)"
              "has m4 ''session'' \<and> get m4 ''session'' = session s"
        by (auto simp: m4_def has_def get_def)
      let ?Y = "evals (snd (toggle_symbol v found symb s))"
      have "snd (toggle_symbol v found symb s) = s1\<lparr>next_id := next_id s + 1, evals := ?Y\<rparr>
          \<or> snd (toggle_symbol v found symb s)
              = s1\<lparr>next_id := next_id s + 1, evals := ?Y, effects := effects s1 @ [Sent m4]\<rparr>"
        using r Inr fr None Some
        by (simp add: toggle_symbol_def Eval_new_def Let_def add_eval_def send_def m4_def)
      then show ?thesis
        using io g by (intro outcome_alloc_send [of s s1 m4 False _ ?Y]) auto
    qed
  qed
qed

lemma interrupt_eval_outcome: "outcome b s (snd (interrupt_eval v s))"
  by (simp add: interrupt_eval_def outcome_interrupts interrupt_each_interrupts)

lemma erase_evals_outcome: "outcome b s (snd (erase_evals p view s))"
  by (simp add: outcome_interrupts erase_evals_interrupts)

lemma read_loop_start_outcome: "outcome True s (snd (read_loop_start s))"
proof (cases "socket s")
  case False
  then show ?thesis by (simp add: read_loop_start_def send_def outcome_quiet)
next
  case True
  have "snd (read_loop_start s)
          = s\<lparr>effects := effects s @ [Sent [(''op'', PStr ''clone''), (''id'', PInt 1)]],
               status := Some Cloning_session\<rparr>"
    using True by (simp add: read_loop_start_def send_def set_status_def)
  then show ?thesis
    unfolding outcome_def
    by (intro exI [of _ "[Sent [(''op'', PStr ''clone''), (''id'', PInt 1)]]"])
       (simp add: main_ok_def has_def get_def)
qed

lemma connect_outcome: "outcome b s (connect h p pr build ok s)"
  by (rule outcome_quiet) (simp_all add: connect_def Let_def set_status_def)

lemma disconnect_outcome: "outcome b s (disconnect s)"
  unfolding outcome_def
  by (cases "socket s")
     (auto simp: disconnect_def reset_def set_status_def intro: exI [of _ "[Cleared]"] exI [of _ "[]"])

lemma outcome_dropI:
  assumes "take (length (effects s)) (effects s') = effects s"
    and "next_id s \<le> next_id s'"
    and "\<forall>m\<in>set (requests (drop (length (effects s)) (effects s'))). is_interrupt m \<or> main_ok b s' m"
    and "request_ids (requests (drop (length (effects s)) (effects s'))) = []
         \<or> (\<exists>j\<in>{1, 2, 3, 4}. request_ids (requests (drop (length (effects s)) (effects s'))) = [j])"
  shows "outcome b s s'"
proof -
  have "effects s' = effects s @ drop (length (effects s)) (effects s')"
    using assms(1) append_take_drop_id [of "length (effects s)" "effects s'"] by simp
  then show ?thesis
    unfolding outcome_def using assms(2-4)
    by (intro exI [of _ "drop (length (effects s)) (effects s')"]) auto
qed

lemma handle_connect_outcome: "outcome False s (snd (handle_connect m s))"
  by (rule outcome_dropI)
     (auto simp: handle_connect_def send_def set_status_def main_ok_def has_def get_def
        add_middleware_msg_def split: if_splits)

lemma outcome_then_interrupts:
  assumes "outcome b s s1" and "interrupts_only s1 s2"
  shows "outcome b s s2"
proof -
  from assms(1) obtain es where 1: "effects s1 = effects s @ es" "next_id s \<le> next_id s1"
      "\<forall>m\<in>set (requests es). is_interrupt m \<or> main_ok b s1 m"
      "request_ids (requests es) = []
            \<or> (\<exists>j\<in>{1, 2, 3, 4}. request_ids (requests es) = [j])
            \<or> (request_ids (requests es) = [next_id s] \<and> next_id s1 = next_id s + 1)"
    unfolding outcome_def by blast
  from assms(2) obtain X fs where 2: "s2 = s1\<lparr>evals := X, effects := effects s1 @ fs\<rparr>"
      "\<forall>m\<in>set (requests fs). is_interrupt m"
    unfolding interrupts_only_def by blast
  have ids: "request_ids (requests fs) = []" using 2(2) by (rule request_ids_interrupts)
  have mk: "\<And>m. main_ok b s2 m = main_ok b s1 m" using 2(1) by (simp add: main_ok_def)
  show ?thesis
    unfolding outcome_def using 1 2 ids mk
    by (intro exI [of _ "es @ fs"]) (auto simp: requests_append request_ids_append)
qed

lemma handler_interrupts:
  "interrupts_only s (snd (handle_new_session m s))"
  "interrupts_only s (snd (handle_value m s))"
  "interrupts_only s (snd (handle_exception m s))"
  "interrupts_only s (snd (handle_lookup m s))"
  by (auto simp: handle_new_session_def handle_value_def handle_exception_def handle_lookup_def
        set_eval_def Let_def interrupts_only_refl interrupts_only_evals
        split: sum.splits option.splits pyval.splits bool.splits)

lemma handle_done_interrupts: "interrupts_only s (snd (handle_done m s))"
proof -
  have "snd (handle_done m s) = s \<or> (\<exists>e. snd (handle_done m s) = snd (erase_eval e s))"
    by (auto simp: handle_done_def split: sum.splits option.splits bool.splits prod.splits)
       (metis snd_conv)+
  then show ?thesis
    using erase_eval_interrupts interrupts_only_refl by auto
qed

lemma or_else_interrupts:
  assumes "\<And>s. interrupts_only s (snd (h1 s))" and "\<And>s. interrupts_only s (snd (h2 s))"
  shows "interrupts_only s (snd (or_else h1 h2 s))"
proof -
  obtain r s1 where r: "h1 s = (r, s1)" by (cases "h1 s") auto
  have 1: "interrupts_only s s1" using assms(1) [of s] r by simp
  show ?thesis
  proof (cases "r = Inr False")
    case True
    then have "snd (or_else h1 h2 s) = snd (h2 s1)" using r by (simp add: or_else_def)
    then show ?thesis using interrupts_only_trans [OF 1 assms(2) [of s1]] by simp
  next
    case False
    then have "snd (or_else h1 h2 s) = s1"
      using r by (cases r) (auto simp: or_else_def split: bool.splits)
    then show ?thesis using 1 by simp
  qed
qed

lemma after_connect_interrupts: "interrupts_only s (snd (after_connect m s))"
  unfolding after_connect_def
  by (intro or_else_interrupts handler_interrupts handle_done_interrupts)

lemma route_outcome: "outcome False s (snd (route m s))"
proof -
  obtain r s1 where r: "handle_connect m s = (r, s1)" by (cases "handle_connect m s") auto
  have 1: "outcome False s s1" using handle_connect_outcome [of s m] r by simp
  have rt: "route m = or_else (handle_connect m) (after_connect m)"
    by (simp add: route_def after_connect_def)
  show ?thesis
  proof (cases "r = Inr False")
    case True
    then have "snd (route m s) = snd (after_connect m s1)"
      using r by (simp add: rt or_else_def)
    then show ?thesis
      using outcome_then_interrupts [OF 1 after_connect_interrupts [of s1 m]] by simp
  next
    case False
    then have "snd (route m s) = s1"
      using r by (cases r) (auto simp: rt or_else_def split: bool.splits)
    then show ?thesis using 1 by simp
  qed
qed

lemma handle_msg_outcome: "outcome False s (snd (handle_msg m s))"
proof (cases "truncated m")
  case (Inl x)
  then show ?thesis by (simp add: handle_msg_def outcome_quiet)
next
  case (Inr m')
  then have "snd (handle_msg m s) = snd (route m' s)"
    by (simp add: handle_msg_def split: prod.splits sum.splits)
  then show ?thesis using route_outcome [of s m'] by simp
qed

lemma step_outcome: "outcome (sessionless a) s (snd (step a s))"
proof (cases a)
  case (Connect h p pr build ok)
  then show ?thesis by (simp add: connect_outcome outcome_quiet)
next
  case Start_reading
  then show ?thesis by (simp add: read_loop_start_outcome)
next
  case (Receive m)
  then show ?thesis by (simp add: handle_msg_outcome)
next
  case Disconnect
  then show ?thesis by (simp add: disconnect_outcome)
next
  case (Run_eval f code)
  then show ?thesis by (simp add: eval_outcome outcome_quiet)
next
  case (Run_eval_buffer f)
  then show ?thesis by (simp add: eval_buffer_outcome outcome_quiet)
next
  case (Run_eval_code code nsarg parsed)
  then show ?thesis by (simp add: eval_code_outcome outcome_quiet)
next
  case (Run_interrupt_eval v)
  then show ?thesis by (simp add: interrupt_eval_outcome outcome_quiet)
next
  case (Run_toggle_symbol v found symb)
  then show ?thesis by (simp add: toggle_symbol_outcome outcome_quiet)
next
  case (Run_erase_evals p view)
  then show ?thesis by (simp add: erase_evals_outcome)
qed

text \<open>
  C8 (as the code has it).  Every request a step writes to the socket has an \<open>op\<close>.
  An interrupt request has \<open>interrupt-id\<close> and \<open>session\<close> and no \<open>id\<close>.  Every other
  request has an \<open>id\<close>, and, unless it is the clone request or comes from the
  status-bar evaluation command, it has the connection's session token under
  \<open>session\<close>.
\<close>

theorem every_request_shape:
  "\<forall>m\<in>set (new_requests a s).
      has m ''op''
      \<and> (is_interrupt m
         \<or> has m ''id''
           \<and> (sessionless a
              \<or> has m ''session'' \<and> get m ''session'' = session (snd (step a s))))"
proof -
  from step_outcome [of a s] obtain es where
      1: "effects (snd (step a s)) = effects s @ es"
      and 2: "\<forall>m\<in>set (requests es). is_interrupt m \<or> main_ok (sessionless a) (snd (step a s)) m"
    unfolding outcome_def by blast
  have n: "new_requests a s = requests es"
    by (simp add: new_requests_def sent_def 1 requests_append)
  have i: "\<And>m. is_interrupt m \<Longrightarrow> has m ''op''"
    by (auto simp: is_interrupt_def has_def get_def split: option.splits)
  show ?thesis
    unfolding n using 2 i by (auto simp: main_ok_def)
qed

theorem every_request_shape_witness:
  "new_requests (Run_eval ex_form None) (ex_state []) =
     [[(''op'', PStr ''clone-eval-close''), (''code'', PStr ''(+ 1 2)''), (''ns'', PStr ''user''),
       (''line'', PInt 1), (''id'', PInt 11), (''session'', PStr ''s1''),
       (''nrepl.middleware.caught/caught'', PStr ''clojure-sublimed.middleware/print-root-trace''),
       (''nrepl.middleware.print/print'', PStr ''clojure-sublimed.middleware/pprint''),
       (''nrepl.middleware.print/quota'', PInt 4096)]]
   \<and> has (hd (new_requests (Run_eval ex_form None) (ex_state []))) ''op''
   \<and> has (hd (new_requests (Run_eval ex_form None) (ex_state []))) ''id''
   \<and> get (hd (new_requests (Run_eval ex_form None) (ex_state []))) ''session''
       = session (snd (step (Run_eval ex_form None) (ex_state [])))"
proof -
  have n: "new_requests (Run_eval ex_form None) (ex_state []) =
     [[(''op'', PStr ''clone-eval-close''), (''code'', PStr ''(+ 1 2)''), (''ns'', PStr ''user''),
       (''line'', PInt 1), (''id'', PInt 11), (''session'', PStr ''s1''),
       (''nrepl.middleware.caught/caught'', PStr ''clojure-sublimed.middleware/print-root-trace''),
       (''nrepl.middleware.print/print'', PStr ''clojure-sublimed.middleware/pprint''),
       (''nrepl.middleware.print/quota'', PInt 4096)]]"
    by (simp add: new_requests_def ex_state_def plugin_loaded_def ex_form_def ready_def eval_def
          eval_msg_def erase_evals_def evals_by_view_def Eval_new_def Let_def add_eval_def
          send_def set_eval_def dict_update_def get_middleware_opts_def sent_def update_eval_def)
  show ?thesis
    using every_request_shape [of "Run_eval ex_form None" "ex_state []"]
    unfolding n by (simp add: is_interrupt_def get_def has_def)
qed

text \<open>
  The claim as stated fails on a connection with a session: the interrupt command
  writes a request without \<open>id\<close>, and the status-bar evaluation writes one without
  \<open>session\<close>.
\<close>

theorem request_without_id_or_session_counterexample:
  "ready (ex_state [(10, ex_eval 10 ''pending'' (PStr ''s2''))])
   \<and> new_requests (Run_interrupt_eval 1) (ex_state [(10, ex_eval 10 ''pending'' (PStr ''s2''))])
       = [[(''op'', PStr ''interrupt''), (''session'', PStr ''s2''), (''interrupt-id'', PInt 10)]]
   \<and> \<not> has [(''op'', PStr ''interrupt''), (''session'', PStr ''s2''), (''interrupt-id'', PInt 10)] ''id''
   \<and> new_requests (Run_eval_code ''(+ 1 2)'' PNone PNone) (ex_state [])
       = [[(''op'', PStr ''eval''), (''id'', PInt 11), (''ns'', PStr ''user''),
           (''code'', PStr ''(+ 1 2)''),
           (''nrepl.middleware.caught/caught'', PStr ''clojure-sublimed.middleware/print-root-trace''),
           (''nrepl.middleware.print/print'', PStr ''clojure-sublimed.middleware/pprint''),
           (''nrepl.middleware.print/quota'', PInt 4096)]]
   \<and> \<not> has (hd (new_requests (Run_eval_code ''(+ 1 2)'' PNone PNone) (ex_state []))) ''session''"
  by (simp add: new_requests_def ex_state_def ex_eval_def plugin_loaded_def ready_def
        interrupt_eval_def evals_by_view_def send_def set_eval_def update_eval_def sent_def
        eval_code_def erase_evals_def StatusEval_new_def Let_def add_eval_def dict_update_def
        get_middleware_opts_def has_def)

subsection \<open>Identifiers\<close>

lemma created_ids_from: "created_ids cs s = map (\<lambda>k. next_id s + int k) [0..<length cs]"
proof (induction cs arbitrary: s)
  case Nil
  then show ?case by simp
next
  case (Cons c cs)
  obtain view code where c: "c = (view, code)" by (cases c) auto
  have m: "map (\<lambda>k. next_id s + int k) [0..<Suc (length cs)]
             = next_id s # map (\<lambda>k. next_id s + 1 + int k) [0..<length cs]"
    by (simp add: upt_rec [of 0] map_Suc_upt [symmetric] del: upt_Suc)
  show ?case
    unfolding c using Cons.IH m
    by (cases view) (simp_all add: StatusEval_new_def Eval_new_def)
qed

lemma created_ids_increasing: "sorted_wrt (<) (created_ids cs s) \<and> distinct (created_ids cs s)"
proof -
  have "sorted_wrt (<) (map (\<lambda>k. next_id s + int k) [0..<length cs])"
    by (simp add: sorted_wrt_map sorted_wrt_upt)
  moreover have "distinct (map (\<lambda>k. next_id s + int k) [0..<length cs])"
    by (simp add: distinct_map inj_on_def)
  ultimately show ?thesis by (simp add: created_ids_from)
qed

lemma outcome_ids_ok:
  assumes "outcome b s s'" and "ids_ok s"
  shows "ids_ok s'"
proof -
  from assms(1) obtain es where 1: "effects s' = effects s @ es" "next_id s \<le> next_id s'"
      "request_ids (requests es) = []
            \<or> (\<exists>j\<in>{1, 2, 3, 4}. request_ids (requests es) = [j])
            \<or> (request_ids (requests es) = [next_id s] \<and> next_id s' = next_id s + 1)"
    unfolding outcome_def by blast
  have ids: "request_ids (sent s') = request_ids (sent s) @ request_ids (requests es)"
    by (simp add: sent_def 1(1) requests_append request_ids_append)
  from 1(3) show ?thesis
  proof (elim disjE bexE)
    assume "request_ids (requests es) = []"
    then show ?thesis using assms(2) 1(2) ids by (fastforce simp: ids_ok_def)
  next
    fix j :: int assume "j \<in> {1, 2, 3, 4}" "request_ids (requests es) = [j]"
    then show ?thesis using assms(2) 1(2) ids by (fastforce simp: ids_ok_def)
  next
    assume "request_ids (requests es) = [next_id s] \<and> next_id s' = next_id s + 1"
    then show ?thesis
      using assms(2) ids by (fastforce simp: ids_ok_def sorted_wrt_append)
  qed
qed

lemma run_ids_ok: "ids_ok s \<Longrightarrow> ids_ok (run acts s)"
proof (induction acts arbitrary: s)
  case Nil
  then show ?case by simp
next
  case (Cons a acts)
  have "ids_ok (snd (step a s))"
    using step_outcome [of a s] Cons.prems by (rule outcome_ids_ok)
  then show ?case using Cons.IH by simp
qed

lemma plugin_loaded_ids_ok: "ids_ok (plugin_loaded shared ins label src)"
  by (simp add: ids_ok_def plugin_loaded_def sent_def)

lemma ex_session_state:
  "run ex_session (plugin_loaded PNone False (PStr ''...'') ''(ns mw)'') =
     (plugin_loaded PNone False (PStr ''...'') ''(ns mw)'')
       \<lparr>port := PInt 5555, profile := Some CLOJURE, socket := True, session := PStr ''s1'',
        status := Some (Connected (Some ''localhost'') (PInt 5555)),
        next_id := 11,
        evals := [(10, \<lparr>e_id = 10, e_view = Some 1, e_is_status = False, e_status = ''pending'',
                        e_value = PStr ''...'', e_code = ''(+ 1 2)'', e_session = PNone,
                        e_msg = Some
                          [(''op'', PStr ''clone-eval-close''), (''code'', PStr ''(+ 1 2)''),
                           (''ns'', PStr ''user''), (''line'', PInt 1), (''id'', PInt 10),
                           (''session'', PStr ''s1''),
                           (''nrepl.middleware.caught/caught'',
                            PStr ''clojure-sublimed.middleware/print-root-trace''),
                           (''nrepl.middleware.print/print'', PStr ''clojure-sublimed.middleware/pprint''),
                           (''nrepl.middleware.print/quota'', PInt 4096)],
                        e_trace = PNone\<rparr>)],
        effects :=
          [Sent clone_msg, Sent (load_file_msg (PStr ''s1'') ''(ns mw)''),
           Sent (add_middleware_msg 4 (PStr ''s1'')),
           Sent [(''op'', PStr ''clone-eval-close''), (''code'', PStr ''(+ 1 2)''),
                 (''ns'', PStr ''user''), (''line'', PInt 1), (''id'', PInt 10),
                 (''session'', PStr ''s1''),
                 (''nrepl.middleware.caught/caught'',
                  PStr ''clojure-sublimed.middleware/print-root-trace''),
                 (''nrepl.middleware.print/print'', PStr ''clojure-sublimed.middleware/pprint''),
                 (''nrepl.middleware.print/quota'', PInt 4096)]]\<rparr>"
  by (simp add: ex_session_def plugin_loaded_def connect_def read_loop_start_def send_def
        set_status_def handle_msg_def truncated_def tk_def route_def or_else_def
        handle_connect_def get_def has_def status_connected_def add_middleware_msg_def
        clone_msg_def load_file_msg_def
        ex_form_def ready_def eval_def eval_msg_def erase_evals_def evals_by_view_def
        Eval_new_def Let_def add_eval_def set_eval_def dict_update_def get_middleware_opts_def
        update_eval_def)

lemma run_append: "run (xs @ ys) s = run ys (run xs s)"
  by (induction xs arbitrary: s) auto

text \<open>
  C5 (as the code has it).  Records created one after another get the identifiers
  \<open>next_id\<close>, \<open>next_id + 1\<close>, ...: strictly increasing, never repeated.  In every
  run of the plugin from its start, each request id is a handshake number (1 to 4) or
  an allocated identifier (10 or more), and the allocated identifiers are sent in
  strictly increasing order.
\<close>

theorem identifiers_increase:
  "created_ids cs s = map (\<lambda>k. next_id s + int k) [0..<length cs]
   \<and> sorted_wrt (<) (created_ids cs s) \<and> distinct (created_ids cs s)
   \<and> sorted_wrt (<) (filter (\<lambda>i. 10 \<le> i)
         (request_ids (sent (run acts (plugin_loaded shared ins label src)))))
   \<and> (\<forall>i\<in>set (request_ids (sent (run acts (plugin_loaded shared ins label src)))).
         i \<in> {1, 2, 3, 4} \<or> 10 \<le> i)"
proof -
  have "ids_ok (run acts (plugin_loaded shared ins label src))"
    using plugin_loaded_ids_ok by (rule run_ids_ok)
  then show ?thesis
    using created_ids_from created_ids_increasing by (auto simp: ids_ok_def)
qed

theorem identifiers_increase_witness:
  "created_ids [(Some 1, ''a''), (None, ''b''), (Some 2, ''c'')] (ex_state []) = [11, 12, 13]
   \<and> request_ids (sent (run ex_session (plugin_loaded PNone False (PStr ''...'') ''(ns mw)'')))
       = [1, 2, 4, 10]
   \<and> sorted_wrt (<) (filter (\<lambda>i. 10 \<le> i)
         (request_ids (sent (run ex_session (plugin_loaded PNone False (PStr ''...'') ''(ns mw)'')))))"
proof -
  have a: "map (\<lambda>k. next_id (ex_state []) + int k) [0..<length [(Some (1::int), ''a''), (None, ''b''), (Some 2, ''c'')]]
             = [11, 12, 13]"
    by (simp add: ex_state_def plugin_loaded_def upt_rec)
  have b: "request_ids (sent (run ex_session (plugin_loaded PNone False (PStr ''...'') ''(ns mw)'')))
             = [1, 2, 4, 10]"
    unfolding ex_session_state
    by (simp add: sent_def get_def clone_msg_def load_file_msg_def add_middleware_msg_def)
  show ?thesis
    using identifiers_increase
            [of "[(Some 1, ''a''), (None, ''b''), (Some 2, ''c'')]" "ex_state []" ex_session
                PNone False "PStr ''...''" "''(ns mw)''"]
    unfolding a b by simp
qed

text \<open>
  The claim as stated, every request id above all identifiers issued before, fails
  after a reconnect: the clone request carries id 1 again, after 10 was issued.
\<close>

theorem handshake_identifier_reused_counterexample:
  "request_ids
     (sent (run (ex_session @ [Disconnect,
                               Connect (Some ''localhost'') (PInt 5555) CLOJURE PNone True,
                               Start_reading])
              (plugin_loaded PNone False (PStr ''...'') ''(ns mw)'')))
     = [1, 2, 4, 10, 1]
   \<and> \<not> sorted_wrt (<)
        (request_ids
           (sent (run (ex_session @ [Disconnect,
                                     Connect (Some ''localhost'') (PInt 5555) CLOJURE PNone True,
                                     Start_reading])
                    (plugin_loaded PNone False (PStr ''...'') ''(ns mw)''))))
   \<and> \<not> distinct
        (request_ids
           (sent (run (ex_session @ [Disconnect,
                                     Connect (Some ''localhost'') (PInt 5555) CLOJURE PNone True,
                                     Start_reading])
                    (plugin_loaded PNone False (PStr ''...'') ''(ns mw)''))))"
proof -
  have "request_ids
     (sent (run (ex_session @ [Disconnect,
                               Connect (Some ''localhost'') (PInt 5555) CLOJURE PNone True,
                               Start_reading])
              (plugin_loaded PNone False (PStr ''...'') ''(ns mw)'')))
     = [1, 2, 4, 10, 1]"
    unfolding run_append ex_session_state
    by (simp add: plugin_loaded_def disconnect_def reset_def set_status_def connect_def
          read_loop_start_def send_def sent_def get_def clone_msg_def load_file_msg_def
          add_middleware_msg_def)
  then show ?thesis by simp
qed

end
